theory Spec2Isabelle
  imports Main
begin

unbundle bit_operations_syntax

section \<open>Python values and helpers\<close>

text \<open>
  The converter exists twice in the repository: as the function
  \<open>convert_image_to_bitmap\<close> of \<open>Source/imagetobitmap.py\<close> and as \<open>main\<close> of
  \<open>Command Line Version/imgtobmp.py\<close>. The palette loop, the pixel loops and the loop
  that writes the byte literal are the same text in both files, so they are modelled
  once. Python integers are \<open>int\<close>; sizes and loop counters that \<open>range\<close> produces
  are \<open>nat\<close>.
\<close>

text \<open>
  The exceptions that can leave the two entry points. A ValueError carries its message.
  A FileNotFoundError carries the message of the \<open>raise\<close> in the source or, when it
  comes from opening a file, the path that was not found.
\<close>

datatype py_error =
    ValueError string
  | FileNotFoundError string
  | IndexError
  | UnidentifiedImageError
  | FileExistsError
  | NotADirectoryError
  | IsADirectoryError
  | SystemExit int

definition NL :: char where
  "NL = CHR 0x0A"

definition BSLASH :: char where
  "BSLASH = CHR 0x5C"

definition QUOTE :: char where
  "QUOTE = CHR 0x27"

text \<open>\<open>range(start, stop, step)\<close> for a positive step, produced the way the iterator runs.\<close>

function py_range_step :: "nat \<Rightarrow> nat \<Rightarrow> nat \<Rightarrow> nat list" where
  "py_range_step i stop step =
     (if i < stop \<and> 0 < step then i # py_range_step (i + step) stop step else [])"
  by pat_completeness auto
termination
  by (relation "measure (\<lambda>(i, stop, step). stop - i)") auto

declare py_range_step.simps [simp del]

text \<open>The slice \<open>s[i:j]\<close> for \<open>0 \<le> i \<le> j\<close>: Python clamps both ends to the length.\<close>

definition slice :: "'a list \<Rightarrow> nat \<Rightarrow> nat \<Rightarrow> 'a list" where
  "slice s i j = take (j - i) (drop i s)"

text \<open>
  \<open>int(value, 2)\<close> on a string of binary digits, read left to right. (Python raises
  ValueError on the empty string and on other characters; lemma \<open>write_loop_values_ok\<close>
  below shows that the loop never passes it either.)
\<close>

definition py_int2 :: "string \<Rightarrow> int" where
  "py_int2 s = foldl (\<lambda>acc c. 2 * acc + (if c = CHR ''1'' then 1 else 0)) 0 s"

definition digit_char :: "nat \<Rightarrow> char" where
  "digit_char d = ''0123456789abcdef'' ! d"

text \<open>The digits of a natural number in base \<open>b\<close>, most significant first.\<close>

function digits_base :: "nat \<Rightarrow> nat \<Rightarrow> string" where
  "digits_base b n =
     (if n < b \<or> b < 2 then [digit_char n]
      else digits_base b (n div b) @ [digit_char (n mod b)])"
  by pat_completeness auto
termination
  by (relation "measure (\<lambda>(b, n). n)") auto

declare digits_base.simps [simp del]

definition zfill :: "nat \<Rightarrow> string \<Rightarrow> string" where
  "zfill w s = replicate (w - length s) CHR ''0'' @ s"

text \<open>The format specifications \<open>{n:04x}\<close> and \<open>{n:02x}\<close>: the width counts the sign.\<close>

definition format_hex :: "nat \<Rightarrow> int \<Rightarrow> string" where
  "format_hex w n =
     (if n < 0 then CHR ''-'' # zfill (w - 1) (digits_base 16 (nat (- n)))
      else zfill w (digits_base 16 (nat n)))"

text \<open>\<open>str(n)\<close>, which an f-string applies to \<open>{n}\<close>.\<close>

definition py_str :: "int \<Rightarrow> string" where
  "py_str n =
     (if n < 0 then CHR ''-'' # digits_base 10 (nat (- n)) else digits_base 10 (nat n))"

text \<open>\<open>','.join(colors)\<close>.\<close>

fun join_comma :: "string list \<Rightarrow> string" where
  "join_comma [] = []"
| "join_comma [s] = s"
| "join_comma (s # t # rest) = s @ '','' @ join_comma (t # rest)"

section \<open>The palette image\<close>

text \<open>
  What the program reads of the mode-P image that Pillow hands back: its size, its
  pixels through \<open>getpixel((x, y))\<close> and the list \<open>getpalette()\<close> returns.
\<close>

record p_image =
  width :: nat
  height :: nat
  getpixel :: "nat \<times> nat \<Rightarrow> int"
  getpalette :: "int list"

section \<open>Colour packer\<close>

definition color565 :: "int \<Rightarrow> int \<Rightarrow> int \<Rightarrow> int" where
  "color565 r g b = push_bit 8 (r AND 0xF8) OR push_bit 3 (g AND 0xFC) OR drop_bit 3 b"

definition swap_bytes :: "int \<Rightarrow> int" where
  "swap_bytes c = push_bit 8 (c AND 0xff) + drop_bit 8 (c AND 0xff00)"

text \<open>\<open>palette[i]\<close> for \<open>i \<ge> 0\<close> raises IndexError past the end of the list.\<close>

definition palette_at :: "int list \<Rightarrow> nat \<Rightarrow> py_error + int" where
  "palette_at palette i = (if i < length palette then Inr (palette ! i) else Inl IndexError)"

text \<open>The body of \<open>for color in range(1 << bits)\<close>: the value appended to \<open>colors\<close>.\<close>

definition pack_color :: "int list \<Rightarrow> nat \<Rightarrow> py_error + string" where
  "pack_color palette color =
     (case palette_at palette (color * 3) of Inl e \<Rightarrow> Inl e | Inr r \<Rightarrow>
      case palette_at palette (color * 3 + 1) of Inl e \<Rightarrow> Inl e | Inr g \<Rightarrow>
      case palette_at palette (color * 3 + 2) of Inl e \<Rightarrow> Inl e | Inr b \<Rightarrow>
        Inr (''0x'' @ format_hex 4 (swap_bytes (color565 r g b))))"

fun colors_loop :: "int list \<Rightarrow> nat list \<Rightarrow> string list \<Rightarrow> py_error + string list" where
  "colors_loop palette [] colors = Inr colors"
| "colors_loop palette (color # rest) colors =
     (case pack_color palette color of
        Inl e \<Rightarrow> Inl e
      | Inr s \<Rightarrow> colors_loop palette rest (colors @ [s]))"

definition palette_colors :: "int list \<Rightarrow> nat \<Rightarrow> py_error + string list" where
  "palette_colors palette bits = colors_loop palette [0..<nat (push_bit bits (1::int))] []"

section \<open>Bit packer\<close>

text \<open>\<open>'1' if (pixel & (1 << bit - 1)) else '0'\<close>; the shift binds weaker than the minus.\<close>

definition pixel_bit :: "int \<Rightarrow> nat \<Rightarrow> char" where
  "pixel_bit pixel b = (if pixel AND push_bit (b - 1) 1 \<noteq> 0 then CHR ''1'' else CHR ''0'')"

text \<open>\<open>for bit in range(bits, 0, -1)\<close>, appending to the string built so far.\<close>

definition bits_loop :: "nat \<Rightarrow> int \<Rightarrow> string \<Rightarrow> string" where
  "bits_loop bits pixel s = foldl (\<lambda>s b. s @ [pixel_bit pixel b]) s (rev [1..<Suc bits])"

text \<open>\<open>for x in range(img.width)\<close>.\<close>

definition row_loop :: "p_image \<Rightarrow> nat \<Rightarrow> nat \<Rightarrow> string \<Rightarrow> string" where
  "row_loop img bits y s =
     foldl (\<lambda>s x. bits_loop bits (getpixel img (x, y)) s) s [0..<width img]"

text \<open>\<open>for y in range(img.height)\<close>, starting from the empty string.\<close>

definition image_bitstring :: "p_image \<Rightarrow> nat \<Rightarrow> string" where
  "image_bitstring img bits = foldl (\<lambda>s y. row_loop img bits y s) [] [0..<height img]"

section \<open>Writing the module\<close>

text \<open>The value of \<open>color\<close> in the iteration of the writing loop that starts at bit \<open>i\<close>.\<close>

definition byte_at :: "string \<Rightarrow> nat \<Rightarrow> int" where
  "byte_at image_bits i = py_int2 (slice image_bits i (i + 8))"

text \<open>What one iteration of \<open>for i in range(0, bitmap_bits, 8)\<close> writes to the file.\<close>

definition bitmap_chunk :: "string \<Rightarrow> nat \<Rightarrow> string" where
  "bitmap_chunk image_bits i =
     (if i \<noteq> 0 \<and> i mod (16 * 8) = 0 then [QUOTE, BSLASH, NL, CHR ''b'', QUOTE] else [])
     @ [BSLASH, CHR ''x''] @ format_hex 2 (byte_at image_bits i)"

text \<open>The whole writing loop, appending to the text \<open>f\<close> already in the file.\<close>

definition write_bitmap :: "string \<Rightarrow> nat \<Rightarrow> string \<Rightarrow> string" where
  "write_bitmap image_bits bitmap_bits f =
     foldl (\<lambda>f i. f @ bitmap_chunk image_bits i) f (py_range_step 0 bitmap_bits 8)"

text \<open>The successive values of \<open>color\<close>: the bytes of the literal, in the order written.\<close>

definition bitmap_bytes :: "string \<Rightarrow> nat \<Rightarrow> int list" where
  "bitmap_bytes image_bits bitmap_bits =
     map (byte_at image_bits) (py_range_step 0 bitmap_bits 8)"

text \<open>
  The values the \<open>with\<close> block interpolates into the file: \<open>img.height\<close>, \<open>img.width\<close>,
  \<open>1 << bits\<close>, \<open>bitmap_bits\<close>, \<open>bits\<close>, \<open>colors\<close> and \<open>image_bitstring\<close>.
\<close>

record module_values =
  HEIGHT :: nat
  WIDTH :: nat
  COLORS :: int
  BITS :: nat
  BPP :: nat
  PALETTE :: "string list"
  bitstring :: string

text \<open>Everything from \<open>palette = img.getpalette()\<close> to \<open>bitmap_bits = len(image_bitstring)\<close>.\<close>

definition build :: "p_image \<Rightarrow> nat \<Rightarrow> py_error + module_values" where
  "build img bits =
     (case palette_colors (getpalette img) bits of
        Inl e \<Rightarrow> Inl e
      | Inr colors \<Rightarrow>
          let image_bits = image_bitstring img bits;
              bitmap_bits = length image_bits
          in Inr \<lparr>HEIGHT = height img, WIDTH = width img, COLORS = push_bit bits 1,
                  BITS = bitmap_bits, BPP = bits, PALETTE = colors,
                  bitstring = image_bits\<rparr>)"

text \<open>The sequence of \<open>f.write\<close> calls: the text of the file when the block is left.\<close>

definition render :: "module_values \<Rightarrow> string" where
  "render m =
     (let f = ''HEIGHT = '' @ py_str (int (HEIGHT m)) @ [NL];
          f = f @ ''WIDTH = '' @ py_str (int (WIDTH m)) @ [NL];
          f = f @ ''COLORS = '' @ py_str (COLORS m) @ [NL];
          f = f @ ''BITS = '' @ py_str (int (BITS m)) @ [NL];
          f = f @ ''BPP = '' @ py_str (int (BPP m)) @ [NL];
          f = f @ ''PALETTE = ['';
          f = f @ join_comma (PALETTE m);
          f = f @ '']'' @ [NL, NL];
          f = f @ ''_bitmap = '' @ [BSLASH, NL];
          f = f @ ''b'' @ [QUOTE];
          f = write_bitmap (bitstring m) (BITS m) f;
          f = f @ [QUOTE, NL];
          f = f @ ''BITMAP = memoryview(_bitmap)'' @ [NL]
      in f)"

section \<open>Paths\<close>

text \<open>
  A \<open>pathlib\<close> path of the POSIX flavour: the root (empty, one slash or two) and the
  components after it. \<open>Path\<close> drops empty components and single dots.
\<close>

record path =
  anchor :: string
  parts :: "string list"

fun split_slash :: "string \<Rightarrow> string \<Rightarrow> string list" where
  "split_slash cur [] = [cur]"
| "split_slash cur (c # cs) =
     (if c = CHR ''/'' then cur # split_slash [] cs else split_slash (cur @ [c]) cs)"

definition Path :: "string \<Rightarrow> path" where
  "Path s =
     \<lparr>anchor =
        (if take 1 s \<noteq> ''/'' then ''''
         else if take 1 (drop 1 s) \<noteq> ''/'' \<or> take 1 (drop 2 s) = ''/'' then ''/''
         else ''//''),
      parts = filter (\<lambda>c. c \<noteq> '''' \<and> c \<noteq> ''.'') (split_slash [] s)\<rparr>"

definition name :: "path \<Rightarrow> string" where
  "name p = (if parts p = [] then '''' else last (parts p))"

definition parent :: "path \<Rightarrow> path" where
  "parent p = p\<lparr>parts := butlast (parts p)\<rparr>"

text \<open>\<open>str(p)\<close>.\<close>

fun join_slash :: "string list \<Rightarrow> string" where
  "join_slash [] = []"
| "join_slash [s] = s"
| "join_slash (s # t # rest) = s @ ''/'' @ join_slash (t # rest)"

definition path_str :: "path \<Rightarrow> string" where
  "path_str p =
     (if anchor p = '''' \<and> parts p = [] then ''.'' else anchor p @ join_slash (parts p))"

text \<open>\<open>name.rfind('.')\<close>: the index of the last dot, if there is one.\<close>

fun rfind :: "char \<Rightarrow> string \<Rightarrow> nat option" where
  "rfind c [] = None"
| "rfind c (x # xs) =
     (case rfind c xs of
        Some i \<Rightarrow> Some (Suc i)
      | None \<Rightarrow> if x = c then Some 0 else None)"

text \<open>
  \<open>PurePath.suffix\<close>: the part of the name from its last dot on, when that dot is
  neither the first nor the last character of the name.
\<close>

definition suffix :: "path \<Rightarrow> string" where
  "suffix p =
     (case rfind CHR ''.'' (name p) of
        None \<Rightarrow> ''''
      | Some i \<Rightarrow> if 0 < i \<and> i + 1 < length (name p) then drop i (name p) else '''')"

text \<open>
  \<open>PurePath.with_suffix\<close>, for a well-formed suffix such as \<open>.py\<close> (the only one the
  program passes): ValueError on a path with an empty name, otherwise the old suffix is
  cut off the name, if there is one, and the new one appended.
\<close>

definition with_suffix :: "path \<Rightarrow> string \<Rightarrow> py_error + path" where
  "with_suffix p suf =
     (if name p = ''''
      then Inl (ValueError (''PosixPath('' @ [QUOTE] @ path_str p @ [QUOTE] @ '') has an empty name''))
      else
        let old_suffix = suffix p;
            nm = (if old_suffix = '''' then name p @ suf
                  else take (length (name p) - length old_suffix) (name p) @ suf)
        in Inr (p\<lparr>parts := butlast (parts p) @ [nm]\<rparr>))"

text \<open>\<open>str.lower\<close> on the ASCII letters.\<close>

definition lower_char :: "char \<Rightarrow> char" where
  "lower_char c =
     (let n = (of_char c :: nat) in if 65 \<le> n \<and> n \<le> 90 then char_of (n + 32) else c)"

definition lower :: "string \<Rightarrow> string" where
  "lower s = map lower_char s"

section \<open>Pillow and the file system\<close>

text \<open>
  Decoding and quantising are Pillow's work. A decoded picture is represented by what
  the calls of the program return for it: its size, the pixel values of
  \<open>img.convert("L")\<close>, and for each number of colours the pixel indices and the palette
  list of \<open>img.convert("P", palette=Image.ADAPTIVE, colors=n)\<close>. Nothing is assumed
  about the luminance formula or about the quantiser.
\<close>

record source_image =
  src_width :: nat
  src_height :: nat
  luminance :: "nat \<times> nat \<Rightarrow> int"
  adaptive_pixels :: "int \<Rightarrow> nat \<times> nat \<Rightarrow> int"
  adaptive_palette :: "int \<Rightarrow> int list"

text \<open>The function handed to \<open>img.point\<close>: \<open>lambda p: 255 if p > 127 else 0\<close>.\<close>

definition threshold :: "int \<Rightarrow> int" where
  "threshold p = (if p > 127 then 255 else 0)"

text \<open>
  The branch \<open>bits == 1\<close>. \<open>point\<close> sends every pixel of the greyscale image through
  the function above, which leaves the values 0 and 255; converting that bilevel image
  to mode P keeps the pixel values (Pillow goes through mode L and copies the bytes);
  \<open>putpalette\<close> stores the list that \<open>getpalette\<close> then returns.
\<close>

definition convert_1bit :: "source_image \<Rightarrow> p_image" where
  "convert_1bit src =
     \<lparr>width = src_width src, height = src_height src,
      getpixel = (\<lambda>xy. threshold (luminance src xy)),
      getpalette = [0, 0, 0, 255, 255, 255] @ concat (replicate 254 [0, 0, 0])\<rparr>"

text \<open>The branch \<open>else\<close>: \<open>colors=2**bits\<close>.\<close>

definition convert_adaptive :: "source_image \<Rightarrow> nat \<Rightarrow> p_image" where
  "convert_adaptive src bits =
     \<lparr>width = src_width src, height = src_height src,
      getpixel = adaptive_pixels src (2 ^ bits),
      getpalette = adaptive_palette src (2 ^ bits)\<rparr>"

definition quantize :: "source_image \<Rightarrow> nat \<Rightarrow> p_image" where
  "quantize src bits = (if bits = 1 then convert_1bit src else convert_adaptive src bits)"

text \<open>
  The file system: regular files with their content, the directories that exist, and a
  log of the calls that touch it, in order. A file whose bytes Pillow can decode is kept
  as the decoded picture.
\<close>

datatype fs_file = Text string | Picture source_image

datatype event = OpenImage path | Mkdir path | OpenWrite path

record world =
  files :: "path \<rightharpoonup> fs_file"
  dirs :: "path set"
  log :: "event list"

definition is_file :: "world \<Rightarrow> path \<Rightarrow> bool" where
  "is_file w p = (files w p \<noteq> None)"

text \<open>The root and the current directory always exist.\<close>

definition is_dir :: "world \<Rightarrow> path \<Rightarrow> bool" where
  "is_dir w p = (parts p = [] \<or> p \<in> dirs w)"

text \<open>
  \<open>Image.open(img_path)\<close>. Pillow identifies a file as an image only when its size is
  positive in both directions: a file that declares width 0 or height 0 is refused with
  UnidentifiedImageError, like a file that is no image at all.
\<close>

definition image_open :: "world \<Rightarrow> path \<Rightarrow> (py_error + source_image) \<times> world" where
  "image_open w p =
     (let w' = w\<lparr>log := log w @ [OpenImage p]\<rparr> in
      case files w p of
        Some (Picture src) \<Rightarrow>
          if src_width src = 0 \<or> src_height src = 0 then (Inl UnidentifiedImageError, w')
          else (Inr src, w')
      | Some (Text t) \<Rightarrow> (Inl UnidentifiedImageError, w')
      | None \<Rightarrow>
          if is_dir w p then (Inl IsADirectoryError, w')
          else (Inl (FileNotFoundError (path_str p)), w'))"

text \<open>The path itself preceded by its ancestors below the root, outermost first.\<close>

definition lineage :: "path \<Rightarrow> path list" where
  "lineage d = map (\<lambda>k. d\<lparr>parts := take k (parts d)\<rparr>) [1..<Suc (length (parts d))]"

text \<open>
  \<open>d.mkdir(parents=True, exist_ok=True)\<close>: every directory of the lineage that is
  missing is created; a regular file in the way is an error, and the directories made
  before it stay.
\<close>

fun mkdir_chain :: "world \<Rightarrow> path list \<Rightarrow> py_error option \<times> world" where
  "mkdir_chain w [] = (None, w)"
| "mkdir_chain w (d # ds) =
     (if is_file w d then (Some (if ds = [] then FileExistsError else NotADirectoryError), w)
      else mkdir_chain (if is_dir w d then w else w\<lparr>dirs := insert d (dirs w)\<rparr>) ds)"

definition mkdir_parents :: "world \<Rightarrow> path \<Rightarrow> py_error option \<times> world" where
  "mkdir_parents w d = mkdir_chain (w\<lparr>log := log w @ [Mkdir d]\<rparr>) (lineage d)"

text \<open>
  Opening \<open>p\<close> in mode \<open>"w"\<close> and writing \<open>text\<close>: the directory of \<open>p\<close> must exist; a
  file already at \<open>p\<close> is truncated, so that afterwards the content is \<open>text\<close> alone.
\<close>

definition open_write :: "world \<Rightarrow> path \<Rightarrow> string \<Rightarrow> py_error option \<times> world" where
  "open_write w p text =
     (let w' = w\<lparr>log := log w @ [OpenWrite p]\<rparr> in
      if is_dir w p then (Some IsADirectoryError, w')
      else if is_file w (parent p) then (Some NotADirectoryError, w')
      else if \<not> is_dir w (parent p) then (Some (FileNotFoundError (path_str p)), w')
      else (None, w'\<lparr>files := (files w)(p \<mapsto> Text text)\<rparr>))"

section \<open>The two entry points\<close>

text \<open>
  \<open>Path(output) if output else img_path.with_suffix(".py")\<close>, the same expression in
  both files: \<open>None\<close> and the empty string are false.
\<close>

definition initial_out_path :: "path \<Rightarrow> string option \<Rightarrow> py_error + path" where
  "initial_out_path img_path output =
     (case output of
        None \<Rightarrow> with_suffix img_path ''.py''
      | Some s \<Rightarrow> if s = '''' then with_suffix img_path ''.py'' else Inr (Path s))"

text \<open>Only in \<open>convert_image_to_bitmap\<close>: \<open>if out_path.suffix.lower() != ".py"\<close>.\<close>

definition ensure_py :: "path \<Rightarrow> py_error + path" where
  "ensure_py out_path =
     (if lower (suffix out_path) \<noteq> ''.py'' then with_suffix out_path ''.py'' else Inr out_path)"

text \<open>Lines 59 to 63 of \<open>Source/imagetobitmap.py\<close>.\<close>

definition engine_out_path :: "path \<Rightarrow> string option \<Rightarrow> py_error + path" where
  "engine_out_path img_path output =
     (case initial_out_path img_path output of
        Inl e \<Rightarrow> Inl e
      | Inr out_path \<Rightarrow> ensure_py out_path)"

text \<open>\<open>convert_image_to_bitmap(image_file, bits_per_pixel, output)\<close>.\<close>

definition convert_image_to_bitmap ::
  "world \<Rightarrow> string \<Rightarrow> int \<Rightarrow> string option \<Rightarrow> (py_error + path) \<times> world" where
  "convert_image_to_bitmap w image_file bits_per_pixel output =
     (if bits_per_pixel < 1 \<or> bits_per_pixel > 8
      then (Inl (ValueError ''bits_per_pixel must be between 1 and 8''), w)
      else
        let img_path = Path image_file in
        if \<not> is_file w img_path
        then (Inl (FileNotFoundError (''Image file not found: '' @ path_str img_path)), w)
        else
          case engine_out_path img_path output of
            Inl e \<Rightarrow> (Inl e, w)
          | Inr out_path \<Rightarrow>
              (case image_open w img_path of
                 (Inl e, w1) \<Rightarrow> (Inl e, w1)
               | (Inr src, w1) \<Rightarrow>
                   let bits = nat bits_per_pixel;
                       img = quantize src bits
                   in case build img bits of
                        Inl e \<Rightarrow> (Inl e, w1)
                      | Inr m \<Rightarrow>
                          (case mkdir_parents w1 (parent out_path) of
                             (Some e, w2) \<Rightarrow> (Inl e, w2)
                           | (None, w2) \<Rightarrow>
                               (case open_write w2 out_path (render m) of
                                  (Some e, w3) \<Rightarrow> (Inl e, w3)
                                | (None, w3) \<Rightarrow> (Inr out_path, w3)))))"

text \<open>
  \<open>main\<close> of \<open>Command Line Version/imgtobmp.py\<close>, after \<open>argparse\<close> has read the three
  arguments: \<open>choices=range(1, 9)\<close> makes the parser leave with exit status 2 on any
  other number. The path is used as given and no directory is made. The result is the
  path that the final \<open>print\<close> reports.
\<close>

definition cli_main ::
  "world \<Rightarrow> string \<Rightarrow> int \<Rightarrow> string option \<Rightarrow> (py_error + path) \<times> world" where
  "cli_main w image_file bits_per_pixel output =
     (if bits_per_pixel < 1 \<or> bits_per_pixel > 8 then (Inl (SystemExit 2), w)
      else
        let img_path = Path image_file in
        case initial_out_path img_path output of
          Inl e \<Rightarrow> (Inl e, w)
        | Inr out_path \<Rightarrow>
            (case image_open w img_path of
               (Inl e, w1) \<Rightarrow> (Inl e, w1)
             | (Inr src, w1) \<Rightarrow>
                 let bits = nat bits_per_pixel;
                     img = quantize src bits
                 in case build img bits of
                      Inl e \<Rightarrow> (Inl e, w1)
                    | Inr m \<Rightarrow>
                        (case open_write w1 out_path (render m) of
                           (Some e, w2) \<Rightarrow> (Inl e, w2)
                         | (None, w2) \<Rightarrow> (Inr out_path, w2))))"

section \<open>The specification's reading of the bit stream\<close>

text \<open>
  The \<open>n\<close>-digit binary numeral of an index, most significant digit first, by repeated
  halving: the specification's "bpp-bit index written most-significant-bit first".
\<close>

fun msb_first :: "nat \<Rightarrow> int \<Rightarrow> string" where
  "msb_first 0 p = []"
| "msb_first (Suc n) p = msb_first n (p div 2) @ [if p mod 2 = 1 then CHR ''1'' else CHR ''0'']"

text \<open>The pixel positions \<open>(x, y)\<close> in row-major order: row 0 left to right, then row 1.\<close>

definition row_major :: "nat \<Rightarrow> nat \<Rightarrow> (nat \<times> nat) list" where
  "row_major w h = concat (map (\<lambda>y. map (\<lambda>x. (x, y)) [0..<w]) [0..<h])"

definition spec_bitstream :: "p_image \<Rightarrow> nat \<Rightarrow> string" where
  "spec_bitstream img bpp =
     concat (map (\<lambda>xy. msb_first bpp (getpixel img xy)) (row_major (width img) (height img)))"

text \<open>
  What a reader of the module finds for the \<open>k\<close>-th pixel: the number denoted by the
  \<open>bpp\<close> bits that start at bit \<open>k * bpp\<close> of the stream.
\<close>

definition emitted_index :: "string \<Rightarrow> nat \<Rightarrow> nat \<Rightarrow> int" where
  "emitted_index bs bpp k = py_int2 (slice bs (k * bpp) (k * bpp + bpp))"


text \<open>
  The name of a path without its suffix (\<open>PurePath.stem\<close>), and the path whose
  extension is replaced by \<open>.py\<close>: the same directory, the stem followed by \<open>.py\<close>.
\<close>

definition stem :: "path \<Rightarrow> string" where
  "stem p = take (length (name p) - length (suffix p)) (name p)"

definition replace_extension :: "path \<Rightarrow> path" where
  "replace_extension p = p\<lparr>parts := butlast (parts p) @ [stem p @ ''.py'']\<rparr>"


section \<open>Sample inputs\<close>

text \<open>A 2 by 2 image whose four pixels are the indices 0, 1, 2, 3 in row-major order.\<close>

definition sample_2x2 :: p_image where
  "sample_2x2 =
     \<lparr>width = 2, height = 2, getpixel = (\<lambda>(x, y). [0, 1, 2, 3] ! (y * 2 + x)),
      getpalette = replicate 768 0\<rparr>"

text \<open>A 3 by 1 image with the indices 1, 2, 3.\<close>

definition sample_3x1 :: p_image where
  "sample_3x1 =
     \<lparr>width = 3, height = 1, getpixel = (\<lambda>(x, y). [1, 2, 3] ! x),
      getpalette = replicate 768 0\<rparr>"

text \<open>A 2 by 1 picture with the luminances 127 and 128.\<close>

definition sample_src :: source_image where
  "sample_src =
     \<lparr>src_width = 2, src_height = 1,
      luminance = (\<lambda>(x, y). [127, 128] ! x),
      adaptive_pixels = (\<lambda>n xy. 0),
      adaptive_palette = (\<lambda>n. replicate 768 0)\<rparr>"

text \<open>The content of a file that declares a picture of width 0 and height 0.\<close>

definition empty_src :: source_image where
  "empty_src =
     \<lparr>src_width = 0, src_height = 0,
      luminance = (\<lambda>xy. 0),
      adaptive_pixels = (\<lambda>n xy. 0),
      adaptive_palette = (\<lambda>n. [])\<rparr>"

text \<open>
  A current directory that holds the two pictures \<open>a.png\<close> and \<open>zero.png\<close> and an
  older \<open>a.py\<close>, and no subdirectory.
\<close>

definition sample_world :: world where
  "sample_world =
     \<lparr>files =
        [\<lparr>anchor = '''', parts = [''a.png'']\<rparr> \<mapsto> Picture sample_src,
         \<lparr>anchor = '''', parts = [''zero.png'']\<rparr> \<mapsto> Picture empty_src,
         \<lparr>anchor = '''', parts = [''a.py'']\<rparr> \<mapsto> Text ''old''],
      dirs = {},
      log = []\<rparr>"

section \<open>The bit packer\<close>

lemma foldl_append_map: "foldl (\<lambda>s x. s @ f x) s xs = s @ concat (map f xs)"
  by (induction xs arbitrary: s) simp_all

lemma pixel_bit_iff: "pixel_bit p b = (if bit p (b - 1) then CHR ''1'' else CHR ''0'')"
  by (simp add: pixel_bit_def bit_iff_and_push_bit_not_eq_0)

lemma bits_loop_eq: "bits_loop bits pixel s = s @ map (pixel_bit pixel) (rev [1..<Suc bits])"
proof -
  have "foldl (\<lambda>s b. s @ [pixel_bit pixel b]) s bs = s @ map (pixel_bit pixel) bs" for bs
    by (induction bs arbitrary: s) simp_all
  then show ?thesis by (simp add: bits_loop_def)
qed

lemma pixel_bits_msb_first: "map (pixel_bit p) (rev [1..<Suc n]) = msb_first n p"
proof (induction n arbitrary: p)
  case 0
  show ?case by simp
next
  case (Suc n)
  have shift: "map (pixel_bit p) (rev [2..<Suc (Suc n)]) = map (pixel_bit (p div 2)) (rev [1..<Suc n])"
  proof -
    have upt: "[2..<Suc (Suc n)] = map Suc [1..<Suc n]"
      by (metis Suc_1 map_Suc_upt)
    have step: "pixel_bit p (Suc b) = pixel_bit (p div 2) b" if "b \<in> set [1..<Suc n]" for b
    proof -
      from that have "0 < b" by (simp del: upt_Suc)
      then obtain c where "b = Suc c"
        using gr0_implies_Suc by blast
      then show ?thesis by (simp add: pixel_bit_iff bit_Suc)
    qed
    have "map (pixel_bit p) (map Suc [1..<Suc n]) = map (pixel_bit (p div 2)) [1..<Suc n]"
      unfolding map_map by (rule map_cong [OF refl]) (simp only: comp_def step)
    then show ?thesis
      unfolding upt rev_map [symmetric] by (simp only: rev_map)
  qed
  have last_bit: "pixel_bit p 1 = (if p mod 2 = 1 then CHR ''1'' else CHR ''0'')"
    by (simp add: pixel_bit_iff bit_0 odd_iff_mod_2_eq_one)
  have "[1..<Suc (Suc n)] = 1 # [2..<Suc (Suc n)]"
    by (simp add: upt_conv_Cons numeral_2_eq_2 del: upt_Suc)
  then have "map (pixel_bit p) (rev [1..<Suc (Suc n)])
      = map (pixel_bit p) (rev [2..<Suc (Suc n)]) @ [pixel_bit p 1]"
    by simp
  then show ?case
    using shift last_bit Suc.IH [of "p div 2"] by simp
qed

lemma bits_loop_msb_first: "bits_loop bits pixel s = s @ msb_first bits pixel"
  by (simp only: bits_loop_eq pixel_bits_msb_first)

lemma row_loop_eq:
  "row_loop img bits y s = s @ concat (map (\<lambda>x. msb_first bits (getpixel img (x, y))) [0..<width img])"
  by (simp add: row_loop_def bits_loop_msb_first foldl_append_map)

lemma image_bitstring_rows:
  "image_bitstring img bits =
     concat (map (\<lambda>y. concat (map (\<lambda>x. msb_first bits (getpixel img (x, y))) [0..<width img])) [0..<height img])"
  by (simp add: image_bitstring_def row_loop_eq foldl_append_map)

lemma concat_map_concat:
  "concat (map f (concat xss)) = concat (map (\<lambda>xs. concat (map f xs)) xss)"
  by (induction xss) simp_all

lemma image_bitstring_spec: "image_bitstring img bits = spec_bitstream img bits"
  by (simp add: image_bitstring_rows spec_bitstream_def row_major_def concat_map_concat comp_def)

lemma length_msb_first [simp]: "length (msb_first n p) = n"
  by (induction n arbitrary: p) simp_all

lemma length_concat_const:
  "(\<And>x. x \<in> set xs \<Longrightarrow> length (f x) = n) \<Longrightarrow> length (concat (map f xs)) = length xs * n"
  by (induction xs) simp_all

lemma length_row_major [simp]: "length (row_major w h) = w * h"
  by (simp add: row_major_def length_concat_const mult.commute)



lemma py_int2_snoc: "py_int2 (s @ [c]) = 2 * py_int2 s + (if c = CHR ''1'' then 1 else 0)"
  by (simp add: py_int2_def)

lemma py_int2_msb_first: "py_int2 (msb_first n p) = p mod 2 ^ n"
proof (induction n arbitrary: p)
  case 0
  show ?case by (simp add: py_int2_def)
next
  case (Suc n)
  have "p mod (2 * 2 ^ n) = 2 * (p div 2 mod 2 ^ n) + p mod 2"
    by (simp add: zmod_zmult2_eq)
  moreover have "p mod 2 = (if p mod 2 = 1 then 1 else 0)"
    by auto
  ultimately show ?case
    by (simp add: py_int2_snoc Suc.IH)
qed

lemma py_int2_msb_first_index:
  "0 \<le> p \<Longrightarrow> p < 2 ^ n \<Longrightarrow> py_int2 (msb_first n p) = p"
  by (simp add: py_int2_msb_first)

lemma nth_concat_const:
  assumes "\<And>x. x \<in> set xs \<Longrightarrow> length (f x) = n" and "k < length xs" and "j < n"
  shows "concat (map f xs) ! (k * n + j) = f (xs ! k) ! j"
  using assms
proof (induction xs arbitrary: k)
  case Nil
  then show ?case by simp
next
  case (Cons a xs)
  show ?case
  proof (cases k)
    case 0
    with Cons.prems show ?thesis by (simp add: nth_append)
  next
    case (Suc k')
    with Cons.prems have "concat (map f xs) ! (k' * n + j) = f (xs ! k') ! j"
      by (intro Cons.IH) simp_all
    with Suc Cons.prems show ?thesis by (simp add: nth_append add.assoc)
  qed
qed

lemma slice_concat_const:
  assumes "\<And>x. x \<in> set xs \<Longrightarrow> length (f x) = n" and "k < length xs"
  shows "slice (concat (map f xs)) (k * n) (k * n + n) = f (xs ! k)"
  using assms
proof (induction xs arbitrary: k)
  case Nil
  then show ?case by simp
next
  case (Cons a xs)
  show ?case
  proof (cases k)
    case 0
    with Cons.prems show ?thesis by (simp add: slice_def)
  next
    case (Suc k')
    with Cons.prems have "slice (concat (map f xs)) (k' * n) (k' * n + n) = f (xs ! k')"
      by (intro Cons.IH) simp_all
    with Suc Cons.prems show ?thesis by (simp add: slice_def)
  qed
qed

lemma row_major_nth: "x < w \<Longrightarrow> y < h \<Longrightarrow> row_major w h ! (y * w + x) = (x, y)"
  unfolding row_major_def
  by (subst nth_concat_const [where n = w]) simp_all


lemma emitted_index_mod:
  assumes x: "x < width img" and y: "y < height img"
  shows "emitted_index (image_bitstring img bpp) bpp (y * width img + x)
           = getpixel img (x, y) mod 2 ^ bpp"
proof -
  let ?k = "y * width img + x"
  have "y * width img + x < Suc y * width img"
    using x by simp
  also have "\<dots> \<le> height img * width img"
    using y by (intro mult_le_mono1) simp
  finally have "?k < height img * width img" .
  then have k: "?k < width img * height img"
    by (metis mult.commute)
  have "slice (image_bitstring img bpp) (?k * bpp) (?k * bpp + bpp)
      = msb_first bpp (getpixel img (row_major (width img) (height img) ! ?k))"
    unfolding image_bitstring_spec spec_bitstream_def
    by (rule slice_concat_const) (simp_all add: k)
  also have "row_major (width img) (height img) ! ?k = (x, y)"
    using x y by (rule row_major_nth)
  finally show ?thesis
    by (simp add: emitted_index_def py_int2_msb_first)
qed

text \<open>
  C2. The string the three nested loops build is the concatenation, over the pixels in
  row-major order (y outer, x inner), of each pixel's \<open>bpp\<close>-digit binary numeral, most
  significant digit first; nothing is reordered or interleaved. For a pixel whose value
  is an index below \<open>2 ^ bpp\<close>, the \<open>bpp\<close> bits found at its place in the stream denote
  exactly that index. This holds for every \<open>bpp\<close>, in particular for 1 to 8.
\<close>

theorem bitstream_row_major_msb_first:
  "image_bitstring img bpp = spec_bitstream img bpp \<and>
   (\<forall>x < width img. \<forall>y < height img.
      0 \<le> getpixel img (x, y) \<and> getpixel img (x, y) < 2 ^ bpp \<longrightarrow>
      emitted_index (image_bitstring img bpp) bpp (y * width img + x) = getpixel img (x, y))"
proof (intro conjI allI impI)
  show "image_bitstring img bpp = spec_bitstream img bpp"
    by (rule image_bitstring_spec)
next
  fix x y
  assume "x < width img" and "y < height img"
    and "0 \<le> getpixel img (x, y) \<and> getpixel img (x, y) < 2 ^ bpp"
  then show "emitted_index (image_bitstring img bpp) bpp (y * width img + x)
      = getpixel img (x, y)"
    by (simp add: emitted_index_mod)
qed

theorem bitstream_row_major_msb_first_witness:
  "image_bitstring sample_2x2 2 = ''00011011'' \<and>
   spec_bitstream sample_2x2 2 = ''00011011'' \<and>
   emitted_index (image_bitstring sample_2x2 2) 2 (1 * 2 + 0) = 2"
proof -
  have spec: "spec_bitstream sample_2x2 2 = ''00011011''"
    by (simp add: spec_bitstream_def row_major_def sample_2x2_def numeral_2_eq_2 upt_rec)
  have x: "0 < width sample_2x2" and y: "1 < height sample_2x2"
    and range: "0 \<le> getpixel sample_2x2 (0, 1) \<and> getpixel sample_2x2 (0, 1) < 2 ^ 2"
    by (simp_all add: sample_2x2_def)
  have val: "getpixel sample_2x2 (0, 1) = 2" and w: "width sample_2x2 = 2"
    by (simp_all add: sample_2x2_def)
  from bitstream_row_major_msb_first [of sample_2x2 2] x y range
  have "image_bitstring sample_2x2 2 = spec_bitstream sample_2x2 2"
    and "emitted_index (image_bitstring sample_2x2 2) 2 (1 * width sample_2x2 + 0)
      = getpixel sample_2x2 (0, 1)"
    by blast+
  with spec val w show ?thesis
    by simp
qed


section \<open>The colour packer\<close>

lemma and_push_bit_int: "k AND push_bit n m = push_bit n (drop_bit n k AND m)" for k m :: int
  by (rule bit_eqI) (auto simp add: bit_simps)

lemma and_mask_shifted:
  "k AND (2 ^ w - 1) * 2 ^ n = 2 ^ n * (k div 2 ^ n mod 2 ^ w)" for k :: int
proof -
  have "(2 ^ w - 1) * 2 ^ n = push_bit n (mask w :: int)"
    by (simp add: mask_eq_exp_minus_1 push_bit_eq_mult)
  then have "k AND (2 ^ w - 1) * 2 ^ n = k AND push_bit n (mask w)"
    by (simp only:)
  also have "\<dots> = push_bit n (take_bit w (drop_bit n k))"
    by (simp only: and_push_bit_int take_bit_eq_mask)
  finally show ?thesis
    by (simp add: push_bit_eq_mult drop_bit_eq_div take_bit_eq_mod)
qed

lemma and_0xF8: "r AND 0xF8 = 8 * (r div 8 mod 32)" for r :: int
  using and_mask_shifted [of r 5 3] by simp

lemma and_0xFC: "g AND 0xFC = 4 * (g div 4 mod 64)" for g :: int
  using and_mask_shifted [of g 6 2] by simp

lemma and_0xff: "c AND 0xff = c mod 256" for c :: int
  using and_mask_shifted [of c 8 0] by simp

lemma and_0xff00: "c AND 0xff00 = 256 * (c div 256 mod 256)" for c :: int
  using and_mask_shifted [of c 8 8] by simp

lemma or_push_bit_low:
  fixes a x :: int
  assumes "0 \<le> a" and "a < 2 ^ n"
  shows "push_bit n x OR a = push_bit n x + a"
proof -
  from assms have "take_bit n a = a"
    by (simp add: take_bit_int_eq_self)
  then have low: "bit a m \<Longrightarrow> m < n" for m
    by (metis bit_take_bit_iff)
  have "push_bit n x + a = push_bit n x OR a"
  proof (rule disjunctive_add)
    fix m
    show "\<not> bit (push_bit n x) m \<or> \<not> bit a m"
      using low [of m] by (auto simp add: bit_push_bit_iff_int)
  qed
  then show ?thesis by simp
qed

lemma color565_arith:
  fixes r g b :: int
  assumes "0 \<le> r" "r \<le> 255" "0 \<le> g" "g \<le> 255" "0 \<le> b" "b \<le> 255"
  shows "color565 r g b = (r div 8) * 2048 + (g div 4) * 32 + b div 8"
proof -
  have r: "r div 8 mod 32 = r div 8" and g: "g div 4 mod 64 = g div 4"
    using assms by simp_all
  have low: "0 \<le> b div 8" "b div 8 < 2 ^ 5"
    using assms by simp_all
  have "g div 4 \<le> 63" and "0 \<le> g div 4"
    using assms by simp_all
  with low have mid: "0 \<le> push_bit 5 (g div 4) + b div 8"
    "push_bit 5 (g div 4) + b div 8 < 2 ^ 11"
    by (simp_all add: push_bit_eq_mult)
  have "color565 r g b = push_bit 11 (r div 8) OR (push_bit 5 (g div 4) OR b div 8)"
    by (simp add: color565_def and_0xF8 and_0xFC r g push_bit_eq_mult drop_bit_eq_div or.assoc
        mult.commute)
  also have "\<dots> = push_bit 11 (r div 8) OR (push_bit 5 (g div 4) + b div 8)"
    using low by (simp only: or_push_bit_low)
  also have "\<dots> = push_bit 11 (r div 8) + (push_bit 5 (g div 4) + b div 8)"
    using mid by (simp only: or_push_bit_low)
  finally show ?thesis
    by (simp add: push_bit_eq_mult)
qed

lemma swap_bytes_arith: "swap_bytes c = (c mod 256) * 256 + c div 256 mod 256"
  by (simp add: swap_bytes_def and_0xff and_0xff00 push_bit_eq_mult drop_bit_eq_div)

text \<open>
  C3. For channels in 0..255 the colour packer computes the RGB565 word: the top five
  bits of R in bits 15..11, the top six bits of G in bits 10..5, the top five bits of B
  in bits 4..0, a 16-bit value. The loop body then always exchanges the two bytes of
  the word before it is printed with four hexadecimal digits. (248,252,255) gives
  0xFFFF before and after the exchange; (248,0,0) gives 0xF800 before and 0x00F8 after.
\<close>

theorem color_packer_rgb565:
  fixes r g b :: int
  assumes "0 \<le> r" "r \<le> 255" "0 \<le> g" "g \<le> 255" "0 \<le> b" "b \<le> 255"
  shows "color565 r g b = (r div 8) * 2048 + (g div 4) * 32 + b div 8 \<and>
         0 \<le> color565 r g b \<and> color565 r g b < 65536 \<and>
         swap_bytes (color565 r g b)
           = (color565 r g b mod 256) * 256 + color565 r g b div 256 \<and>
         pack_color [r, g, b] 0 = Inr (''0x'' @ format_hex 4 (swap_bytes (color565 r g b))) \<and>
         color565 248 252 255 = 0xFFFF \<and> swap_bytes 0xFFFF = 0xFFFF \<and>
         color565 248 0 0 = 0xF800 \<and> swap_bytes 0xF800 = 0x00F8"
proof -
  have arith: "color565 r g b = (r div 8) * 2048 + (g div 4) * 32 + b div 8"
    using assms by (rule color565_arith)
  have "r div 8 \<le> 31" "0 \<le> r div 8" "g div 4 \<le> 63" "0 \<le> g div 4"
    "b div 8 \<le> 31" "0 \<le> b div 8"
    using assms by simp_all
  then have range: "0 \<le> color565 r g b" "color565 r g b < 65536"
    unfolding arith by simp_all
  then have "color565 r g b div 256 mod 256 = color565 r g b div 256"
    by simp
  then have swap: "swap_bytes (color565 r g b)
      = (color565 r g b mod 256) * 256 + color565 r g b div 256"
    by (simp only: swap_bytes_arith)
  have pack: "pack_color [r, g, b] 0 = Inr (''0x'' @ format_hex 4 (swap_bytes (color565 r g b)))"
    by (simp add: pack_color_def palette_at_def)
  have examples: "color565 248 252 255 = 0xFFFF" "swap_bytes 0xFFFF = 0xFFFF"
    "color565 248 0 0 = 0xF800" "swap_bytes 0xF800 = 0x00F8"
    by (simp_all add: color565_def swap_bytes_def)
  from arith range swap pack examples show ?thesis
    by (intro conjI)
qed

theorem color_packer_rgb565_witness:
  "color565 248 0 0 = 63488 \<and> swap_bytes (color565 248 0 0) = 248 \<and>
   pack_color [248, 0, 0] 0 = Inr ''0x00f8''"
proof -
  have hex: "format_hex 4 248 = ''00f8''"
    by code_simp
  from color_packer_rgb565 [of 248 0 0]
  have "color565 248 0 0 = (248 div 8) * 2048 + (0 div 4) * 32 + 0 div 8"
    and "swap_bytes (color565 248 0 0) = (color565 248 0 0 mod 256) * 256 + color565 248 0 0 div 256"
    and "pack_color [248, 0, 0] 0 = Inr (''0x'' @ format_hex 4 (swap_bytes (color565 248 0 0)))"
    by simp_all
  with hex show ?thesis by simp
qed

section \<open>The values written\<close>

lemma py_int2_bounds: "0 \<le> py_int2 s \<and> py_int2 s < 2 ^ length s"
proof (induction s rule: rev_induct)
  case Nil
  show ?case by (simp add: py_int2_def)
next
  case (snoc c s)
  then show ?case by (simp add: py_int2_snoc)
qed


lemma pack_color_ok:
  "color * 3 + 2 < length palette \<Longrightarrow> \<exists>s. pack_color palette color = Inr s"
  by (simp add: pack_color_def palette_at_def)

lemma colors_loop_ok:
  "(\<And>c. c \<in> set cs \<Longrightarrow> c * 3 + 2 < length palette) \<Longrightarrow> \<exists>r. colors_loop palette cs acc = Inr r"
proof (induction cs arbitrary: acc)
  case Nil
  show ?case by simp
next
  case (Cons c cs)
  from Cons.prems [of c] obtain s where "pack_color palette c = Inr s"
    using pack_color_ok by fastforce
  moreover have "\<exists>r. colors_loop palette cs (acc @ [s]) = Inr r"
    by (rule Cons.IH) (rule Cons.prems, simp)
  ultimately show ?case by simp
qed

lemma colors_range: "nat (push_bit bits (1::int)) = 2 ^ bits"
  by (simp add: push_bit_eq_mult)

lemma palette_colors_ok:
  assumes "3 * 2 ^ bits \<le> length palette"
  shows "\<exists>colors. palette_colors palette bits = Inr colors"
  unfolding palette_colors_def colors_range
proof (rule colors_loop_ok)
  fix c assume "c \<in> set [0..<2 ^ bits]"
  then have "Suc c \<le> 2 ^ bits" by simp
  then have "3 * Suc c \<le> 3 * 2 ^ bits" by (rule mult_le_mono2)
  with assms show "c * 3 + 2 < length palette" by simp
qed










lemma msb_first_chars: "set (msb_first n p) \<subseteq> {CHR ''0'', CHR ''1''}"
  by (induction n arbitrary: p) auto

lemma image_bitstring_chars: "set (image_bitstring img bits) \<subseteq> {CHR ''0'', CHR ''1''}"
  unfolding image_bitstring_spec spec_bitstream_def
  using msb_first_chars by fastforce

lemma py_range_step_bound: "j \<in> set (py_range_step i stop step) \<Longrightarrow> j < stop"
proof (induction i stop step rule: py_range_step.induct)
  case (1 i stop step)
  from "1.prems" have run: "i < stop \<and> 0 < step"
    by (subst (asm) py_range_step.simps) (simp split: if_splits)
  with "1.prems" have "j = i \<or> j \<in> set (py_range_step (i + step) stop step)"
    by (subst (asm) py_range_step.simps) simp
  with run "1.IH" show ?case
    by auto
qed

lemma write_loop_values_ok:
  assumes "i \<in> set (py_range_step 0 (length (image_bitstring img bits)) 8)"
  shows "slice (image_bitstring img bits) i (i + 8) \<noteq> [] \<and>
         set (slice (image_bitstring img bits) i (i + 8)) \<subseteq> {CHR ''0'', CHR ''1''}"
proof -
  from assms have "i < length (image_bitstring img bits)"
    by (rule py_range_step_bound)
  then have "slice (image_bitstring img bits) i (i + 8) \<noteq> []"
    by (simp add: slice_def)
  moreover have "set (slice (image_bitstring img bits) i (i + 8)) \<subseteq> set (image_bitstring img bits)"
    unfolding slice_def by (meson set_take_subset set_drop_subset subset_trans)
  ultimately show ?thesis
    using image_bitstring_chars by blast
qed

text \<open>
  The last iteration of the writing loop when fewer than eight bits are left: the byte
  is the number those bits denote by themselves, so it is below \<open>2 ^ k\<close> for \<open>k\<close> bits
  and its high-order \<open>8 - k\<close> bits are zero.
\<close>

lemma partial_group_right_aligned:
  assumes "i < length bs" and "length bs < i + 8"
  shows "byte_at bs i = py_int2 (drop i bs) \<and>
         0 \<le> byte_at bs i \<and> byte_at bs i < 2 ^ (length bs - i)"
proof -
  from assms have "slice bs i (i + 8) = drop i bs"
    by (simp add: slice_def)
  then have "byte_at bs i = py_int2 (drop i bs)"
    by (simp add: byte_at_def)
  then show ?thesis
    using py_int2_bounds [of "drop i bs"] by simp
qed

text \<open>
  C1. The writing loop takes the last, shorter slice of the bit string and converts it
  with \<open>int(value, 2)\<close> as it is: nothing is appended to the slice, so its bits land in
  the low-order end of the byte. For the 3 by 1 image with the indices 1, 2, 3 at four
  bits per pixel the stream is 0001 0010 0011 and the two bytes written are 0x12 and
  0x03: the third index sits in the low nibble and the high nibble is zero. Padding the
  last group with zeros on its trailing side would give 0x30.
\<close>

theorem final_partial_byte_3x1:
  "image_bitstring sample_3x1 4 = ''000100100011'' \<and>
   bitmap_bytes (image_bitstring sample_3x1 4) 12 = [0x12, 0x03] \<and>
   write_bitmap (image_bitstring sample_3x1 4) 12 [] =
     [BSLASH, CHR ''x'', CHR ''1'', CHR ''2'', BSLASH, CHR ''x'', CHR ''0'', CHR ''3''] \<and>
   py_int2 (slice (image_bitstring sample_3x1 4) 8 16 @ ''0000'') = 0x30"
  by code_simp




section \<open>The one-bit branch\<close>

lemma set_row_major: "set (row_major w h) = {(x, y). x < w \<and> y < h}"
  by (auto simp add: row_major_def)

lemma concat_map_single: "concat (map (\<lambda>x. [c]) xs) = replicate (length xs) c"
  by (induction xs) simp_all

lemma uniform_bitstring:
  assumes "\<And>x y. x < width img \<Longrightarrow> y < height img \<Longrightarrow> msb_first bpp (getpixel img (x, y)) = [c]"
  shows "image_bitstring img bpp = replicate (width img * height img) c"
proof -
  have "map (\<lambda>xy. msb_first bpp (getpixel img xy)) (row_major (width img) (height img))
      = map (\<lambda>xy. [c]) (row_major (width img) (height img))"
    by (rule map_cong [OF refl]) (auto simp add: set_row_major assms)
  then show ?thesis
    by (simp only: image_bitstring_spec spec_bitstream_def concat_map_single length_row_major)
qed

lemma msb_first_1_threshold:
  "msb_first 1 (threshold l) = [if l > 127 then CHR ''1'' else CHR ''0'']"
  by (simp add: threshold_def)

lemma format_hex_ffff: "format_hex 4 65535 = ''ffff''"
  by (simp add: format_hex_def zfill_def digits_base.simps digit_char_def)

lemma format_hex_0000: "format_hex 4 0 = ''0000''"
  by (simp add: format_hex_def zfill_def digits_base.simps digit_char_def numeral_3_eq_3)

lemma one_bit_palette_colors:
  "palette_colors ([0, 0, 0, 255, 255, 255] @ rest) 1 = Inr [''0x0000'', ''0xffff'']"
proof -
  have "[0..<nat (push_bit 1 (1::int))] = [0, 1]"
    by (simp add: upt_rec)
  moreover have "pack_color ([0, 0, 0, 255, 255, 255] @ rest) 0 = Inr ''0x0000''"
    by (simp add: pack_color_def palette_at_def color565_def swap_bytes_def format_hex_0000)
  moreover have "pack_color ([0, 0, 0, 255, 255, 255] @ rest) 1 = Inr ''0xffff''"
    by (simp add: pack_color_def palette_at_def color565_def swap_bytes_def format_hex_ffff
        nth_append)
  ultimately show ?thesis
    by (simp add: palette_colors_def)
qed

text \<open>
  C4. With \<open>bits == 1\<close> the pixel handed to the bit packer is the luminance put through
  the threshold function of the source, and the palette is the list the source stores:
  entry 0 is (0,0,0) and entry 1 is (255,255,255), printed as 0x0000 and 0xffff. The
  one-bit index written for a pixel is 1 when its luminance is above 127 and 0
  otherwise; so an all-white picture gives a stream of 1-bits, an all-black one a stream
  of 0-bits, luminance 127 gives 0 and 128 gives 1. (In the intermediate image a white
  pixel has the value 255; the packer writes its lowest bit.)
\<close>

theorem one_bit_threshold:
  "take 6 (getpalette (quantize src 1)) = [0, 0, 0, 255, 255, 255] \<and>
   palette_colors (getpalette (quantize src 1)) 1 = Inr [''0x0000'', ''0xffff''] \<and>
   (\<forall>x < src_width src. \<forall>y < src_height src.
      emitted_index (image_bitstring (quantize src 1) 1) 1 (y * src_width src + x)
        = (if luminance src (x, y) > 127 then 1 else 0)) \<and>
   ((\<forall>x < src_width src. \<forall>y < src_height src. luminance src (x, y) > 127) \<longrightarrow>
      image_bitstring (quantize src 1) 1 = replicate (src_width src * src_height src) CHR ''1'') \<and>
   ((\<forall>x < src_width src. \<forall>y < src_height src. luminance src (x, y) \<le> 127) \<longrightarrow>
      image_bitstring (quantize src 1) 1 = replicate (src_width src * src_height src) CHR ''0'') \<and>
   bits_loop 1 (threshold 127) [] = ''0'' \<and> bits_loop 1 (threshold 128) [] = ''1'' \<and>
   bits_loop 1 (threshold 255) [] = ''1'' \<and> bits_loop 1 (threshold 0) [] = ''0''"
proof (intro conjI allI impI)
  have gp: "getpalette (quantize src 1)
      = [0, 0, 0, 255, 255, 255] @ concat (replicate 254 [0, 0, 0])"
    by (simp only: quantize_def convert_1bit_def p_image.select_convs if_True refl)
  show "take 6 (getpalette (quantize src 1)) = [0, 0, 0, 255, 255, 255]"
    unfolding gp by simp
  show "palette_colors (getpalette (quantize src 1)) 1 = Inr [''0x0000'', ''0xffff'']"
    unfolding gp by (rule one_bit_palette_colors)
next
  fix x y
  assume "x < src_width src" and "y < src_height src"
  then have "emitted_index (image_bitstring (quantize src 1) 1) 1
      (y * width (quantize src 1) + x) = getpixel (quantize src 1) (x, y) mod 2 ^ 1"
    by (intro emitted_index_mod) (simp_all add: quantize_def convert_1bit_def)
  then show "emitted_index (image_bitstring (quantize src 1) 1) 1 (y * src_width src + x)
      = (if luminance src (x, y) > 127 then 1 else 0)"
    by (simp add: quantize_def convert_1bit_def threshold_def)
next
  assume white: "\<forall>x < src_width src. \<forall>y < src_height src. luminance src (x, y) > 127"
  have "image_bitstring (quantize src 1) 1
      = replicate (width (quantize src 1) * height (quantize src 1)) CHR ''1''"
    by (rule uniform_bitstring)
      (use white in \<open>simp add: quantize_def convert_1bit_def threshold_def\<close>)
  then show "image_bitstring (quantize src 1) 1
      = replicate (src_width src * src_height src) CHR ''1''"
    by (simp add: quantize_def convert_1bit_def)
next
  assume black: "\<forall>x < src_width src. \<forall>y < src_height src. luminance src (x, y) \<le> 127"
  have "image_bitstring (quantize src 1) 1
      = replicate (width (quantize src 1) * height (quantize src 1)) CHR ''0''"
    by (rule uniform_bitstring)
      (use black in \<open>fastforce simp add: quantize_def convert_1bit_def threshold_def\<close>)
  then show "image_bitstring (quantize src 1) 1
      = replicate (src_width src * src_height src) CHR ''0''"
    by (simp add: quantize_def convert_1bit_def)
next
  show "bits_loop 1 (threshold 127) [] = ''0''" "bits_loop 1 (threshold 128) [] = ''1''"
    "bits_loop 1 (threshold 255) [] = ''1''" "bits_loop 1 (threshold 0) [] = ''0''"
    by (simp_all add: bits_loop_msb_first threshold_def)
qed

theorem one_bit_threshold_witness:
  "emitted_index (image_bitstring (quantize sample_src 1) 1) 1 0 = 0 \<and>
   emitted_index (image_bitstring (quantize sample_src 1) 1) 1 1 = 1 \<and>
   image_bitstring (quantize (sample_src\<lparr>luminance := (\<lambda>xy. 255)\<rparr>) 1) 1 = ''11'' \<and>
   image_bitstring (quantize (sample_src\<lparr>luminance := (\<lambda>xy. 0)\<rparr>) 1) 1 = ''00''"
proof -
  have size: "src_width sample_src = 2" "src_height sample_src = 1"
    and lum: "luminance sample_src (0, 0) = 127" "luminance sample_src (1, 0) = 128"
    by (simp_all add: sample_src_def)
  from one_bit_threshold [of sample_src] size
  have "emitted_index (image_bitstring (quantize sample_src 1) 1) 1 (0 * src_width sample_src + 0)
      = (if luminance sample_src (0, 0) > 127 then 1 else 0)"
    and "emitted_index (image_bitstring (quantize sample_src 1) 1) 1 (0 * src_width sample_src + 1)
      = (if luminance sample_src (1, 0) > 127 then 1 else 0)"
    by simp_all
  moreover from one_bit_threshold [of "sample_src\<lparr>luminance := (\<lambda>xy. 255)\<rparr>"] size
  have "image_bitstring (quantize (sample_src\<lparr>luminance := (\<lambda>xy. 255)\<rparr>) 1) 1
      = replicate (2 * 1) CHR ''1''"
    by simp
  moreover from one_bit_threshold [of "sample_src\<lparr>luminance := (\<lambda>xy. 0)\<rparr>"] size
  have "image_bitstring (quantize (sample_src\<lparr>luminance := (\<lambda>xy. 0)\<rparr>) 1) 1
      = replicate (2 * 1) CHR ''0''"
    by simp
  ultimately show ?thesis
    using lum by (simp add: numeral_2_eq_2)
qed

section \<open>The file system\<close>

lemma lineage_parts: "d \<in> set (lineage p) \<Longrightarrow> parts d \<noteq> [] \<and> length (parts d) \<le> length (parts p)"
  by (auto simp add: lineage_def simp del: upt_Suc)

lemma mkdir_chain_ok:
  "\<forall>d \<in> set ds. \<not> is_file w d \<Longrightarrow>
   mkdir_chain w ds = (None, w\<lparr>dirs := dirs w \<union> {d \<in> set ds. parts d \<noteq> []}\<rparr>)"
proof (induction ds arbitrary: w)
  case Nil
  show ?case by simp
next
  case (Cons d ds)
  let ?w = "if is_dir w d then w else w\<lparr>dirs := insert d (dirs w)\<rparr>"
  have "\<forall>d \<in> set ds. \<not> is_file ?w d"
    using Cons.prems by (simp add: is_file_def)
  then have "mkdir_chain ?w ds = (None, ?w\<lparr>dirs := dirs ?w \<union> {d \<in> set ds. parts d \<noteq> []}\<rparr>)"
    by (rule Cons.IH)
  moreover have "dirs ?w \<union> {d \<in> set ds. parts d \<noteq> []} = dirs w \<union> {e \<in> set (d # ds). parts e \<noteq> []}"
    by (auto simp add: is_dir_def)
  ultimately show ?case
    using Cons.prems by (simp add: is_dir_def)
qed

lemma mkdir_parents_ok:
  assumes "\<forall>d \<in> set (lineage p). \<not> is_file w d"
  shows "mkdir_parents w p = (None, w\<lparr>dirs := dirs w \<union> set (lineage p), log := log w @ [Mkdir p]\<rparr>)"
proof -
  have "{d \<in> set (lineage p). parts d \<noteq> []} = set (lineage p)"
    using lineage_parts by blast
  moreover have "\<forall>d \<in> set (lineage p). \<not> is_file (w\<lparr>log := log w @ [Mkdir p]\<rparr>) d"
    using assms by (simp add: is_file_def)
  ultimately show ?thesis
    by (simp add: mkdir_parents_def mkdir_chain_ok)
qed

lemma parent_in_lineage: "parts p \<noteq> [] \<Longrightarrow> p \<in> set (lineage p)"
proof -
  assume "parts p \<noteq> []"
  then have mem: "length (parts p) \<in> set [1..<Suc (length (parts p))]"
    by (simp del: upt_Suc add: Suc_le_eq)
  have eq: "p = p\<lparr>parts := take (length (parts p)) (parts p)\<rparr>"
    by simp
  have "p \<in> (\<lambda>k. p\<lparr>parts := take k (parts p)\<rparr>) ` set [1..<Suc (length (parts p))]"
    using eq mem by (rule image_eqI)
  then show ?thesis
    by (simp only: lineage_def set_map)
qed

lemma out_not_in_lineage: "parts p \<noteq> [] \<Longrightarrow> p \<notin> set (lineage (parent p))"
proof
  assume nonempty: "parts p \<noteq> []" and "p \<in> set (lineage (parent p))"
  then have "length (parts p) \<le> length (parts (parent p))"
    using lineage_parts by blast
  also have "\<dots> = length (parts p) - 1"
    by (simp add: parent_def)
  also from nonempty have "\<dots> < length (parts p)"
    by (intro diff_less) simp_all
  finally show False
    by simp
qed

lemma convert_ok:
  assumes bits: "1 \<le> bpp" "bpp \<le> 8"
    and pic: "files w (Path image_file) = Some (Picture src)"
    and size: "0 < src_width src" "0 < src_height src"
    and outp: "engine_out_path (Path image_file) output = Inr out_path"
    and built: "build (quantize src (nat bpp)) (nat bpp) = Inr m"
    and nofile: "\<forall>d \<in> set (parent out_path # lineage (parent out_path)). \<not> is_file w d"
    and notdir: "\<not> is_dir w out_path"
  shows "convert_image_to_bitmap w image_file bpp output =
     (Inr out_path,
      w\<lparr>files := (files w)(out_path \<mapsto> Text (render m)),
        dirs := dirs w \<union> set (lineage (parent out_path)),
        log := log w @ [OpenImage (Path image_file), Mkdir (parent out_path), OpenWrite out_path]\<rparr>)"
proof -
  let ?w1 = "w\<lparr>log := log w @ [OpenImage (Path image_file)]\<rparr>"
  let ?w2 = "?w1\<lparr>dirs := dirs ?w1 \<union> set (lineage (parent out_path)),
                 log := log ?w1 @ [Mkdir (parent out_path)]\<rparr>"
  have isfile: "is_file w (Path image_file)"
    using pic by (simp add: is_file_def)
  have opened: "image_open w (Path image_file) = (Inr src, ?w1)"
    using pic size by (simp add: image_open_def)
  have "\<forall>d \<in> set (lineage (parent out_path)). \<not> is_file ?w1 d"
    using nofile by (simp add: is_file_def)
  then have made: "mkdir_parents ?w1 (parent out_path) = (None, ?w2)"
    by (rule mkdir_parents_ok)
  have parts: "parts out_path \<noteq> []" and notin: "out_path \<notin> dirs w"
    using notdir by (simp_all add: is_dir_def)
  have a: "\<not> is_dir ?w2 out_path"
    using parts notin out_not_in_lineage [OF parts] by (simp add: is_dir_def)
  have b: "\<not> is_file ?w2 (parent out_path)"
    using nofile by (simp add: is_file_def)
  have c: "is_dir ?w2 (parent out_path)"
    using parent_in_lineage [of "parent out_path"] by (auto simp add: is_dir_def)
  have written: "open_write ?w2 out_path (render m) =
      (None, ?w2\<lparr>log := log ?w2 @ [OpenWrite out_path],
                  files := (files ?w2)(out_path \<mapsto> Text (render m))\<rparr>)"
    using a b c by (simp add: open_write_def Let_def)
  show ?thesis
    using bits isfile outp opened built made written
    by (simp add: convert_image_to_bitmap_def Let_def)
qed


section \<open>The entry point\<close>

lemma build_ok: "3 * 2 ^ bits \<le> length (getpalette img) \<Longrightarrow> \<exists>m. build img bits = Inr m"
proof -
  assume "3 * 2 ^ bits \<le> length (getpalette img)"
  then obtain colors where "palette_colors (getpalette img) bits = Inr colors"
    using palette_colors_ok by blast
  then show ?thesis
    by (simp add: build_def Let_def)
qed

lemma build_bitstring:
  "build img bits = Inr m \<Longrightarrow>
   bitstring m = image_bitstring img bits \<and> BITS m = length (image_bitstring img bits) \<and>
   HEIGHT m = height img \<and> WIDTH m = width img \<and> COLORS m = 2 ^ bits \<and> BPP m = bits"
  by (auto simp add: build_def Let_def push_bit_eq_mult split: sum.splits)

lemma length_concat_replicate: "length (concat (replicate n xs)) = n * length xs"
  by (induction n) simp_all

lemma quantize_palette_ok:
  assumes "bits \<noteq> 1 \<longrightarrow> 3 * 2 ^ bits \<le> length (adaptive_palette src (2 ^ bits))"
  shows "3 * 2 ^ bits \<le> length (getpalette (quantize src bits))"
proof (cases "bits = 1")
  case True
  then show ?thesis
    by (simp add: quantize_def convert_1bit_def length_concat_replicate)
next
  case False
  with assms show ?thesis
    by (simp add: quantize_def convert_adaptive_def)
qed

lemma quantize_size:
  "width (quantize src bits) = src_width src" "height (quantize src bits) = src_height src"
  by (simp_all add: quantize_def convert_1bit_def convert_adaptive_def)

lemma py_range_step_empty: "py_range_step i i step = []"
  by (subst py_range_step.simps) simp










lemma path_missing_png:
  "Path ''missing.png'' = \<lparr>anchor = '''', parts = [''missing.png'']\<rparr>"
  "path_str \<lparr>anchor = '''', parts = [''missing.png'']\<rparr> = ''missing.png''"
  by code_simp+

lemma path_a_png: "Path ''a.png'' = \<lparr>anchor = '''', parts = [''a.png'']\<rparr>"
  by code_simp

lemma missing_png_not_file: "\<not> is_file sample_world (Path ''missing.png'')"
  by (simp add: path_missing_png is_file_def sample_world_def)



text \<open>
  C10. When \<open>bits_per_pixel\<close> is out of range or the source path is not an existing
  file, \<open>convert_image_to_bitmap\<close> returns an error and the world it leaves is the world
  it found: the same files, the same directories and the same log, so the image was not
  opened, no directory was made and no file was opened for writing. The range check
  comes first: with \<open>bits_per_pixel\<close> out of range the error is the ValueError of line 53
  whether the file exists or not; otherwise it is the FileNotFoundError of line 57.
\<close>

theorem early_failures_leave_world:
  "(bpp < 1 \<or> 8 < bpp \<or> \<not> is_file w (Path image_file)) \<longrightarrow>
     snd (convert_image_to_bitmap w image_file bpp output) = w \<and>
     (bpp < 1 \<or> 8 < bpp \<longrightarrow>
        fst (convert_image_to_bitmap w image_file bpp output)
          = Inl (ValueError ''bits_per_pixel must be between 1 and 8'')) \<and>
     (1 \<le> bpp \<and> bpp \<le> 8 \<longrightarrow>
        fst (convert_image_to_bitmap w image_file bpp output)
          = Inl (FileNotFoundError (''Image file not found: '' @ path_str (Path image_file))))"
  by (auto simp add: convert_image_to_bitmap_def Let_def)

theorem early_failures_leave_world_witness:
  "snd (convert_image_to_bitmap sample_world ''missing.png'' 0 (Some ''new/x.py'')) = sample_world \<and>
   fst (convert_image_to_bitmap sample_world ''missing.png'' 0 (Some ''new/x.py''))
     = Inl (ValueError ''bits_per_pixel must be between 1 and 8'') \<and>
   snd (convert_image_to_bitmap sample_world ''missing.png'' 4 (Some ''new/x.py'')) = sample_world \<and>
   fst (convert_image_to_bitmap sample_world ''missing.png'' 4 (Some ''new/x.py''))
     = Inl (FileNotFoundError ''Image file not found: missing.png'')"
proof -
  from early_failures_leave_world [of 0 sample_world "''missing.png''" "Some ''new/x.py''"]
  have "snd (convert_image_to_bitmap sample_world ''missing.png'' 0 (Some ''new/x.py'')) = sample_world"
    and "fst (convert_image_to_bitmap sample_world ''missing.png'' 0 (Some ''new/x.py''))
      = Inl (ValueError ''bits_per_pixel must be between 1 and 8'')"
    by simp_all
  moreover
  from early_failures_leave_world [of 4 sample_world "''missing.png''" "Some ''new/x.py''"]
    missing_png_not_file
  have "snd (convert_image_to_bitmap sample_world ''missing.png'' 4 (Some ''new/x.py'')) = sample_world"
    and "fst (convert_image_to_bitmap sample_world ''missing.png'' 4 (Some ''new/x.py''))
      = Inl (FileNotFoundError (''Image file not found: '' @ path_str (Path ''missing.png'')))"
    by simp_all
  ultimately show ?thesis
    by (simp add: path_missing_png)
qed


section \<open>Output path, directories and the empty image\<close>

lemma rfind_append:
  "rfind c (xs @ ys) =
     (case rfind c ys of Some i \<Rightarrow> Some (length xs + i) | None \<Rightarrow> rfind c xs)"
  by (induction xs) (simp_all split: option.splits)

lemma rfind_bound: "rfind c xs = Some i \<Longrightarrow> i < length xs"
  by (induction xs arbitrary: i) (auto split: option.splits if_splits)

lemma suffix_length: "length (suffix p) < length (name p) \<or> name p = []"
  by (auto simp add: suffix_def split: option.splits dest: rfind_bound)

lemma stem_nonempty: "name p \<noteq> [] \<Longrightarrow> stem p \<noteq> []"
  using suffix_length [of p] by (auto simp add: stem_def)

lemma with_suffix_py: "name p \<noteq> [] \<Longrightarrow> with_suffix p ''.py'' = Inr (replace_extension p)"
  by (simp add: with_suffix_def replace_extension_def stem_def Let_def)

lemma with_suffix_py_result:
  "with_suffix p ''.py'' = Inr q \<Longrightarrow> name p \<noteq> [] \<and> q = replace_extension p"
proof -
  assume r: "with_suffix p ''.py'' = Inr q"
  then have n: "name p \<noteq> []"
    by (auto simp add: with_suffix_def)
  with r with_suffix_py [OF n] show ?thesis
    by simp
qed

lemma name_replace_extension: "name (replace_extension p) = stem p @ ''.py''"
  by (simp add: name_def replace_extension_def)

lemma suffix_replace_extension:
  assumes "name p \<noteq> []"
  shows "suffix (replace_extension p) = ''.py''"
proof -
  have "rfind CHR ''.'' (stem p @ ''.py'') = Some (length (stem p))"
    by (simp add: rfind_append)
  moreover have "0 < length (stem p)"
    using stem_nonempty [OF assms] by simp
  ultimately show ?thesis
    by (simp add: suffix_def name_replace_extension)
qed

lemma parent_replace_extension: "parent (replace_extension p) = parent p"
  by (simp add: parent_def replace_extension_def)

lemma lower_py: "lower ''.py'' = ''.py''"
  by code_simp

lemma open_write_result:
  "open_write w p t = (None, w') \<Longrightarrow> files w' p = Some (Text t) \<and> is_dir w (parent p)"
  by (auto simp add: open_write_def Let_def split: if_splits)

lemma convert_result_path:
  assumes "convert_image_to_bitmap w image_file bpp output = (Inr p, w')"
  shows "engine_out_path (Path image_file) output = Inr p \<and> (\<exists>t. files w' p = Some (Text t))"
proof -
  from assms have range: "\<not> (bpp < 1 \<or> bpp > 8)" and isfile: "is_file w (Path image_file)"
    by (auto simp add: convert_image_to_bitmap_def Let_def split: if_splits)
  show ?thesis
  proof (cases "engine_out_path (Path image_file) output")
    case (Inl e)
    with assms range isfile show ?thesis
      by (simp add: convert_image_to_bitmap_def Let_def)
  next
    case (Inr out_path)
    obtain r1 w1 where opened: "image_open w (Path image_file) = (r1, w1)"
      by (cases "image_open w (Path image_file)")
    show ?thesis
    proof (cases r1)
      case (Inl e)
      with assms range isfile Inr opened show ?thesis
        by (simp add: convert_image_to_bitmap_def Let_def)
    next
      case src: (Inr src)
      show ?thesis
      proof (cases "build (quantize src (nat bpp)) (nat bpp)")
        case (Inl e)
        with assms range isfile Inr opened src show ?thesis
          by (simp add: convert_image_to_bitmap_def Let_def)
      next
        case m: (Inr m)
        obtain r2 w2 where made: "mkdir_parents w1 (parent out_path) = (r2, w2)"
          by (cases "mkdir_parents w1 (parent out_path)")
        obtain r3 w3 where written: "open_write w2 out_path (render m) = (r3, w3)"
          by (cases "open_write w2 out_path (render m)")
        from assms range isfile Inr opened src m made written
        have "r2 = None" and "r3 = None" and "p = out_path" and "w' = w3"
          by (auto simp add: convert_image_to_bitmap_def Let_def split: option.splits)
        with written Inr open_write_result [of w2 out_path "render m" w3] show ?thesis
          by auto
      qed
    qed
  qed
qed

lemma cli_result_path:
  assumes "cli_main w image_file bpp output = (Inr p, w')"
  shows "initial_out_path (Path image_file) output = Inr p \<and> (\<exists>t. files w' p = Some (Text t))"
proof -
  from assms have range: "\<not> (bpp < 1 \<or> bpp > 8)"
    by (auto simp add: cli_main_def Let_def split: if_splits)
  show ?thesis
  proof (cases "initial_out_path (Path image_file) output")
    case (Inl e)
    with assms range show ?thesis
      by (simp add: cli_main_def Let_def)
  next
    case (Inr out_path)
    obtain r1 w1 where opened: "image_open w (Path image_file) = (r1, w1)"
      by (cases "image_open w (Path image_file)")
    show ?thesis
    proof (cases r1)
      case (Inl e)
      with assms range Inr opened show ?thesis
        by (simp add: cli_main_def Let_def)
    next
      case src: (Inr src)
      show ?thesis
      proof (cases "build (quantize src (nat bpp)) (nat bpp)")
        case (Inl e)
        with assms range Inr opened src show ?thesis
          by (simp add: cli_main_def Let_def)
      next
        case m: (Inr m)
        obtain r3 w3 where written: "open_write w1 out_path (render m) = (r3, w3)"
          by (cases "open_write w1 out_path (render m)")
        from assms range Inr opened src m written
        have "r3 = None" and "p = out_path" and "w' = w3"
          by (auto simp add: cli_main_def Let_def split: option.splits)
        with written Inr open_write_result [of w1 out_path "render m" w3] show ?thesis
          by auto
      qed
    qed
  qed
qed

lemma cli_ok:
  assumes bits: "1 \<le> bpp" "bpp \<le> 8"
    and pic: "files w (Path image_file) = Some (Picture src)"
    and size: "0 < src_width src" "0 < src_height src"
    and outp: "initial_out_path (Path image_file) output = Inr out_path"
    and built: "build (quantize src (nat bpp)) (nat bpp) = Inr m"
    and notdir: "\<not> is_dir w out_path"
    and parent_ok: "\<not> is_file w (parent out_path)" "is_dir w (parent out_path)"
  shows "cli_main w image_file bpp output =
     (Inr out_path,
      w\<lparr>log := log w @ [OpenImage (Path image_file), OpenWrite out_path],
        files := (files w)(out_path \<mapsto> Text (render m))\<rparr>)"
proof -
  let ?w1 = "w\<lparr>log := log w @ [OpenImage (Path image_file)]\<rparr>"
  have opened: "image_open w (Path image_file) = (Inr src, ?w1)"
    using pic size by (simp add: image_open_def)
  have written: "open_write ?w1 out_path (render m) =
      (None, ?w1\<lparr>log := log ?w1 @ [OpenWrite out_path],
                  files := (files ?w1)(out_path \<mapsto> Text (render m))\<rparr>)"
    using notdir parent_ok by (simp add: open_write_def Let_def is_dir_def is_file_def)
  show ?thesis
    using bits outp opened built written
    by (simp add: cli_main_def Let_def)
qed


lemma zero_size_rejected:
  assumes "files w p = Some (Picture src)" and "src_width src = 0 \<or> src_height src = 0"
  shows "image_open w p = (Inl UnidentifiedImageError, w\<lparr>log := log w @ [OpenImage p]\<rparr>)"
  using assms by (auto simp add: image_open_def Let_def)

lemma sample_build: "\<exists>m. build (quantize sample_src (nat 1)) (nat 1) = Inr m"
  by (intro build_ok quantize_palette_ok) simp

lemma sample_size: "0 < src_width sample_src" "0 < src_height sample_src"
  by (simp_all add: sample_src_def)

lemma sample_paths:
  "initial_out_path (Path ''a.png'') (Some ''out.txt'') = Inr \<lparr>anchor = '''', parts = [''out.txt'']\<rparr>"
  "initial_out_path (Path ''a.png'') (Some ''new/a.py'') = Inr \<lparr>anchor = '''', parts = [''new'', ''a.py'']\<rparr>"
  "suffix \<lparr>anchor = '''', parts = [''out.txt'']\<rparr> = ''.txt''"
  "path_str \<lparr>anchor = '''', parts = [''new'', ''a.py'']\<rparr> = ''new/a.py''"
  "initial_out_path (Path ''a.png'') None = Inr \<lparr>anchor = '''', parts = [''a.py'']\<rparr>"
  "initial_out_path (Path ''a.png'') (Some ''other/b.py'')
     = Inr \<lparr>anchor = '''', parts = [''other'', ''b.py'']\<rparr>"
  "path_str \<lparr>anchor = '''', parts = [''other'', ''b.py'']\<rparr> = ''other/b.py''"
  by code_simp+

lemma sample_picture: "files sample_world (Path ''a.png'') = Some (Picture sample_src)"
  by (simp add: path_a_png sample_world_def)

text \<open>
  C7, as stated, fails on the command-line script: \<open>main\<close> of \<open>imgtobmp.py\<close> has no
  extension check, so with the output \<open>out.txt\<close> it writes \<open>out.txt\<close>, whose suffix is
  \<open>.txt\<close>, and no \<open>out.py\<close>.
\<close>

theorem cli_keeps_output_extension:
  "fst (cli_main sample_world ''a.png'' 1 (Some ''out.txt''))
     = Inr \<lparr>anchor = '''', parts = [''out.txt'']\<rparr> \<and>
   is_file (snd (cli_main sample_world ''a.png'' 1 (Some ''out.txt'')))
     \<lparr>anchor = '''', parts = [''out.txt'']\<rparr> \<and>
   \<not> is_file (snd (cli_main sample_world ''a.png'' 1 (Some ''out.txt'')))
     \<lparr>anchor = '''', parts = [''out.py'']\<rparr> \<and>
   suffix \<lparr>anchor = '''', parts = [''out.txt'']\<rparr> = ''.txt''"
proof -
  let ?out = "\<lparr>anchor = '''', parts = [''out.txt'']\<rparr>"
  obtain m where m: "build (quantize sample_src (nat 1)) (nat 1) = Inr m"
    using sample_build by blast
  have "cli_main sample_world ''a.png'' 1 (Some ''out.txt'') =
      (Inr ?out,
       sample_world\<lparr>log := log sample_world @ [OpenImage (Path ''a.png''), OpenWrite ?out],
         files := (files sample_world)(?out \<mapsto> Text (render m))\<rparr>)"
    using sample_picture sample_size sample_paths(1) m
    by (rule cli_ok [rotated 2]) (simp_all add: is_dir_def is_file_def parent_def sample_world_def)
  then show ?thesis
    by (simp add: sample_paths is_file_def sample_world_def)
qed


lemma initial_default:
  assumes "name p \<noteq> ''''"
  shows "initial_out_path p None = Inr (replace_extension p)"
    and "initial_out_path p (Some '''') = Inr (replace_extension p)"
  using assms by (simp_all add: initial_out_path_def with_suffix_py)

lemma initial_default_result:
  assumes "initial_out_path p output = Inr q" and "output = None \<or> output = Some ''''"
  shows "name p \<noteq> '''' \<and> q = replace_extension p"
  using assms by (auto simp add: initial_out_path_def dest: with_suffix_py_result)

lemma engine_default:
  assumes "name p \<noteq> ''''"
  shows "engine_out_path p None = Inr (replace_extension p)"
    and "engine_out_path p (Some '''') = Inr (replace_extension p)"
  using assms
  by (simp_all add: engine_out_path_def initial_default ensure_py_def
      suffix_replace_extension lower_py)

lemma engine_default_result:
  assumes "engine_out_path p output = Inr q" and "output = None \<or> output = Some ''''"
  shows "q = replace_extension p"
proof (cases "initial_out_path p output")
  case (Inl e)
  with assms show ?thesis
    by (simp add: engine_out_path_def)
next
  case (Inr r)
  from initial_default_result [OF Inr assms(2)]
  have n: "name p \<noteq> ''''" and r: "r = replace_extension p"
    by simp_all
  from assms(2) engine_default [OF n] have "engine_out_path p output = Inr (replace_extension p)"
    by auto
  with assms(1) show ?thesis
    by simp
qed

lemma engine_supplied:
  assumes "s \<noteq> ''''"
  shows "name (Path s) \<noteq> '''' \<Longrightarrow> lower (suffix (Path s)) \<noteq> ''.py'' \<Longrightarrow>
           engine_out_path p (Some s) = Inr (replace_extension (Path s))"
    and "lower (suffix (Path s)) = ''.py'' \<Longrightarrow> engine_out_path p (Some s) = Inr (Path s)"
    and "initial_out_path p (Some s) = Inr (Path s)"
  using assms
  by (simp_all add: engine_out_path_def initial_out_path_def ensure_py_def with_suffix_py)

lemma engine_supplied_result:
  assumes "engine_out_path p (Some s) = Inr q" and "s \<noteq> ''''"
  shows "lower (suffix q) = ''.py'' \<and>
         q = (if lower (suffix (Path s)) = ''.py'' then Path s else replace_extension (Path s))"
proof (cases "lower (suffix (Path s)) = ''.py''")
  case True
  with assms engine_supplied(2) [OF assms(2) True, of p] show ?thesis
    by simp
next
  case False
  with assms have "with_suffix (Path s) ''.py'' = Inr q"
    by (simp add: engine_out_path_def initial_out_path_def ensure_py_def)
  then have "name (Path s) \<noteq> []" and "q = replace_extension (Path s)"
    using with_suffix_py_result by blast+
  with False show ?thesis
    by (simp add: suffix_replace_extension lower_py)
qed

text \<open>
  C7, amended. In both entry points the output path, when no output is given (\<open>None\<close> or
  the empty string), is the input path with its extension replaced by \<open>.py\<close>: the same
  directory, the stem of the name followed by \<open>.py\<close>. When an output is given,
  \<open>convert_image_to_bitmap\<close> replaces a suffix that is not \<open>.py\<close> (in any letter case) by
  \<open>.py\<close> and keeps a path that already ends in \<open>.py\<close>, so every path it writes to ends in
  \<open>.py\<close>; \<open>main\<close> of the command-line script writes to the path given, unchanged. A
  call of either that succeeds has written a file at exactly the path it returns.
\<close>

theorem output_path_selection:
  "(name (Path image_file) \<noteq> '''' \<and> (output = None \<or> output = Some '''') \<longrightarrow>
      engine_out_path (Path image_file) output = Inr (replace_extension (Path image_file)) \<and>
      initial_out_path (Path image_file) output = Inr (replace_extension (Path image_file))) \<and>
   (s \<noteq> '''' \<and> name (Path s) \<noteq> '''' \<and> lower (suffix (Path s)) \<noteq> ''.py'' \<longrightarrow>
      engine_out_path (Path image_file) (Some s) = Inr (replace_extension (Path s))) \<and>
   (s \<noteq> '''' \<and> lower (suffix (Path s)) = ''.py'' \<longrightarrow>
      engine_out_path (Path image_file) (Some s) = Inr (Path s)) \<and>
   (name p \<noteq> '''' \<longrightarrow>
      suffix (replace_extension p) = ''.py'' \<and> parent (replace_extension p) = parent p \<and>
      name (replace_extension p) = stem p @ ''.py'') \<and>
   (convert_image_to_bitmap w image_file bpp output = (Inr out_path, w') \<longrightarrow>
      engine_out_path (Path image_file) output = Inr out_path \<and>
      (\<exists>t. files w' out_path = Some (Text t)) \<and>
      (output = None \<or> output = Some '''' \<longrightarrow> out_path = replace_extension (Path image_file)) \<and>
      (\<forall>given. output = Some given \<and> given \<noteq> '''' \<longrightarrow>
         lower (suffix out_path) = ''.py'' \<and>
         out_path = (if lower (suffix (Path given)) = ''.py'' then Path given
                     else replace_extension (Path given)))) \<and>
   (cli_main w image_file bpp output = (Inr out_path, w') \<longrightarrow>
      initial_out_path (Path image_file) output = Inr out_path \<and>
      (\<exists>t. files w' out_path = Some (Text t)) \<and>
      (output = None \<or> output = Some '''' \<longrightarrow> out_path = replace_extension (Path image_file)) \<and>
      (\<forall>given. output = Some given \<and> given \<noteq> '''' \<longrightarrow> out_path = Path given)) \<and>
   (s \<noteq> '''' \<longrightarrow> initial_out_path (Path image_file) (Some s) = Inr (Path s))"
proof (intro conjI impI allI)
  assume a: "name (Path image_file) \<noteq> '''' \<and> (output = None \<or> output = Some '''')"
  then show "engine_out_path (Path image_file) output = Inr (replace_extension (Path image_file))"
    using engine_default [of "Path image_file"] by auto
  from a show "initial_out_path (Path image_file) output = Inr (replace_extension (Path image_file))"
    using initial_default [of "Path image_file"] by auto
next
  assume "s \<noteq> '''' \<and> name (Path s) \<noteq> '''' \<and> lower (suffix (Path s)) \<noteq> ''.py''"
  then show "engine_out_path (Path image_file) (Some s) = Inr (replace_extension (Path s))"
    by (simp add: engine_supplied)
next
  assume "s \<noteq> '''' \<and> lower (suffix (Path s)) = ''.py''"
  then show "engine_out_path (Path image_file) (Some s) = Inr (Path s)"
    by (simp add: engine_supplied)
next
  assume "name p \<noteq> ''''"
  then show "suffix (replace_extension p) = ''.py''"
    by (rule suffix_replace_extension)
  show "parent (replace_extension p) = parent p"
    by (rule parent_replace_extension)
  show "name (replace_extension p) = stem p @ ''.py''"
    by (rule name_replace_extension)
next
  assume conv: "convert_image_to_bitmap w image_file bpp output = (Inr out_path, w')"
  from convert_result_path [OF conv]
  show eng: "engine_out_path (Path image_file) output = Inr out_path"
    and "\<exists>t. files w' out_path = Some (Text t)"
    by simp_all
  {
    assume "output = None \<or> output = Some ''''"
    with eng show "out_path = replace_extension (Path image_file)"
      by (rule engine_default_result)
  }
  {
    fix given
    assume "output = Some given \<and> given \<noteq> ''''"
    with eng have "engine_out_path (Path image_file) (Some given) = Inr out_path"
      and "given \<noteq> ''''"
      by simp_all
    then have both: "lower (suffix out_path) = ''.py'' \<and>
        out_path = (if lower (suffix (Path given)) = ''.py'' then Path given
                    else replace_extension (Path given))"
      by (rule engine_supplied_result)
    from both show "lower (suffix out_path) = ''.py''"
      by (rule conjunct1)
    from both show "out_path = (if lower (suffix (Path given)) = ''.py'' then Path given
                      else replace_extension (Path given))"
      by (rule conjunct2)
  }
next
  assume run: "cli_main w image_file bpp output = (Inr out_path, w')"
  from cli_result_path [OF run]
  show ini: "initial_out_path (Path image_file) output = Inr out_path"
    and "\<exists>t. files w' out_path = Some (Text t)"
    by simp_all
  {
    assume "output = None \<or> output = Some ''''"
    with ini show "out_path = replace_extension (Path image_file)"
      using initial_default_result by blast
  }
  {
    fix given
    assume "output = Some given \<and> given \<noteq> ''''"
    with ini show "out_path = Path given"
      by (simp add: initial_out_path_def)
  }
next
  assume "s \<noteq> ''''"
  then show "initial_out_path (Path image_file) (Some s) = Inr (Path s)"
    by (rule engine_supplied)
qed

lemma convert_succeeds:
  assumes bits: "1 \<le> bpp" "bpp \<le> 8"
    and pic: "files w (Path image_file) = Some (Picture src)"
    and size: "0 < src_width src" "0 < src_height src"
    and palette: "nat bpp \<noteq> 1 \<longrightarrow> 3 * 2 ^ nat bpp \<le> length (adaptive_palette src (2 ^ nat bpp))"
    and outp: "engine_out_path (Path image_file) output = Inr out_path"
    and nofile: "\<forall>d \<in> set (parent out_path # lineage (parent out_path)). \<not> is_file w d"
    and notdir: "\<not> is_dir w out_path"
  shows "\<exists>m. build (quantize src (nat bpp)) (nat bpp) = Inr m \<and>
     convert_image_to_bitmap w image_file bpp output =
       (Inr out_path,
        w\<lparr>files := (files w)(out_path \<mapsto> Text (render m)),
          dirs := dirs w \<union> set (lineage (parent out_path)),
          log := log w @ [OpenImage (Path image_file), Mkdir (parent out_path), OpenWrite out_path]\<rparr>)"
proof -
  from palette obtain m where m: "build (quantize src (nat bpp)) (nat bpp) = Inr m"
    using build_ok quantize_palette_ok by blast
  from bits pic size outp m nofile notdir
  have "convert_image_to_bitmap w image_file bpp output =
       (Inr out_path,
        w\<lparr>files := (files w)(out_path \<mapsto> Text (render m)),
          dirs := dirs w \<union> set (lineage (parent out_path)),
          log := log w @ [OpenImage (Path image_file), Mkdir (parent out_path), OpenWrite out_path]\<rparr>)"
    by (rule convert_ok)
  with m show ?thesis by blast
qed


text \<open>
  C6, as stated, fails: a file that declares a picture of width 0 and height 0 is not
  converted. \<open>Image.open\<close> refuses it, so the call ends with UnidentifiedImageError and
  neither \<open>zero.py\<close> nor any other file or directory is made.
\<close>

theorem zero_size_conversion_fails:
  "files sample_world \<lparr>anchor = '''', parts = [''zero.png'']\<rparr> = Some (Picture empty_src) \<and>
   src_width empty_src = 0 \<and> src_height empty_src = 0 \<and>
   fst (convert_image_to_bitmap sample_world ''zero.png'' 1 None) = Inl UnidentifiedImageError \<and>
   files (snd (convert_image_to_bitmap sample_world ''zero.png'' 1 None)) = files sample_world \<and>
   dirs (snd (convert_image_to_bitmap sample_world ''zero.png'' 1 None)) = dirs sample_world \<and>
   \<not> is_file (snd (convert_image_to_bitmap sample_world ''zero.png'' 1 None))
     \<lparr>anchor = '''', parts = [''zero.py'']\<rparr>"
proof -
  have path: "Path ''zero.png'' = \<lparr>anchor = '''', parts = [''zero.png'']\<rparr>"
    and outp: "engine_out_path \<lparr>anchor = '''', parts = [''zero.png'']\<rparr> None
      = Inr \<lparr>anchor = '''', parts = [''zero.py'']\<rparr>"
    by code_simp+
  have pic: "files sample_world \<lparr>anchor = '''', parts = [''zero.png'']\<rparr> = Some (Picture empty_src)"
    by (simp add: sample_world_def)
  have size: "src_width empty_src = 0" "src_height empty_src = 0"
    by (simp_all add: empty_src_def)
  have "image_open sample_world \<lparr>anchor = '''', parts = [''zero.png'']\<rparr> =
      (Inl UnidentifiedImageError,
       sample_world\<lparr>log := log sample_world @ [OpenImage \<lparr>anchor = '''', parts = [''zero.png'']\<rparr>]\<rparr>)"
    by (rule zero_size_rejected [OF pic disjI1 [OF size(1)]])
  with pic outp have "convert_image_to_bitmap sample_world ''zero.png'' 1 None =
      (Inl UnidentifiedImageError,
       sample_world\<lparr>log := log sample_world @ [OpenImage \<lparr>anchor = '''', parts = [''zero.png'']\<rparr>]\<rparr>)"
    by (simp add: convert_image_to_bitmap_def Let_def path is_file_def)
  with pic size show ?thesis
    by (simp add: is_file_def sample_world_def)
qed

text \<open>
  C6, amended. A 0 by 0 input image (any image file whose width or height is 0) is not
  converted by either entry point: once the arguments are accepted, \<open>Image.open\<close>
  refuses the file and the call ends with UnidentifiedImageError. Opening the image is
  the only step taken: no directory is made, no file is opened for writing, and so no
  module, BITS field or byte literal is produced.
\<close>

theorem zero_size_image_rejected:
  assumes "1 \<le> bpp" "bpp \<le> 8"
    and "files w (Path image_file) = Some (Picture src)"
    and "src_width src = 0 \<or> src_height src = 0"
  shows
    "(engine_out_path (Path image_file) output = Inr out_path \<longrightarrow>
        convert_image_to_bitmap w image_file bpp output =
          (Inl UnidentifiedImageError, w\<lparr>log := log w @ [OpenImage (Path image_file)]\<rparr>)) \<and>
     (initial_out_path (Path image_file) output = Inr out_path \<longrightarrow>
        cli_main w image_file bpp output =
          (Inl UnidentifiedImageError, w\<lparr>log := log w @ [OpenImage (Path image_file)]\<rparr>))"
proof (intro conjI impI)
  have opened: "image_open w (Path image_file) =
      (Inl UnidentifiedImageError, w\<lparr>log := log w @ [OpenImage (Path image_file)]\<rparr>)"
    using assms(3,4) by (rule zero_size_rejected)
  {
    assume "engine_out_path (Path image_file) output = Inr out_path"
    with assms opened show "convert_image_to_bitmap w image_file bpp output =
          (Inl UnidentifiedImageError, w\<lparr>log := log w @ [OpenImage (Path image_file)]\<rparr>)"
      by (simp add: convert_image_to_bitmap_def Let_def is_file_def)
  }
  {
    assume "initial_out_path (Path image_file) output = Inr out_path"
    with assms opened show "cli_main w image_file bpp output =
          (Inl UnidentifiedImageError, w\<lparr>log := log w @ [OpenImage (Path image_file)]\<rparr>)"
      by (simp add: cli_main_def Let_def)
  }
qed

lemma sample_engine_paths:
  "engine_out_path (Path ''a.png'') (Some ''new/dir/a'')
     = Inr \<lparr>anchor = '''', parts = [''new'', ''dir'', ''a.py'']\<rparr>"
  "engine_out_path (Path ''a.png'') None = Inr \<lparr>anchor = '''', parts = [''a.py'']\<rparr>"
  "engine_out_path (Path ''zero.png'') None = Inr \<lparr>anchor = '''', parts = [''zero.py'']\<rparr>"
  "engine_out_path (Path ''a.png'') (Some ''out.txt'') = Inr \<lparr>anchor = '''', parts = [''out.py'']\<rparr>"
  "Path ''zero.png'' = \<lparr>anchor = '''', parts = [''zero.png'']\<rparr>"
  "initial_out_path (Path ''zero.png'') None = Inr \<lparr>anchor = '''', parts = [''zero.py'']\<rparr>"
  by code_simp+

lemma sample_lineages:
  "parent \<lparr>anchor = '''', parts = [''new'', ''dir'', ''a.py'']\<rparr>
     = \<lparr>anchor = '''', parts = [''new'', ''dir'']\<rparr>"
  "lineage \<lparr>anchor = '''', parts = [''new'', ''dir'']\<rparr>
     = [\<lparr>anchor = '''', parts = [''new'']\<rparr>, \<lparr>anchor = '''', parts = [''new'', ''dir'']\<rparr>]"
  "parent \<lparr>anchor = '''', parts = [''a.py'']\<rparr> = \<lparr>anchor = '''', parts = []\<rparr>"
  "parent \<lparr>anchor = '''', parts = [''out.py'']\<rparr> = \<lparr>anchor = '''', parts = []\<rparr>"
  "parent \<lparr>anchor = '''', parts = [''out.txt'']\<rparr> = \<lparr>anchor = '''', parts = []\<rparr>"
  "parent \<lparr>anchor = '''', parts = [''other'', ''b.py'']\<rparr> = \<lparr>anchor = '''', parts = [''other'']\<rparr>"
  "lineage \<lparr>anchor = '''', parts = []\<rparr> = []"
  by code_simp+


lemma sample_palette:
  "nat 1 \<noteq> 1 \<longrightarrow> 3 * 2 ^ nat 1 \<le> length (adaptive_palette sample_src (2 ^ nat 1))"
  by simp


theorem zero_size_image_rejected_witness:
  "fst (convert_image_to_bitmap sample_world ''zero.png'' 4 None) = Inl UnidentifiedImageError \<and>
   log (snd (convert_image_to_bitmap sample_world ''zero.png'' 4 None))
     = [OpenImage \<lparr>anchor = '''', parts = [''zero.png'']\<rparr>] \<and>
   dirs (snd (convert_image_to_bitmap sample_world ''zero.png'' 4 None)) = {} \<and>
   files (snd (convert_image_to_bitmap sample_world ''zero.png'' 4 None)) = files sample_world \<and>
   fst (cli_main sample_world ''zero.png'' 4 None) = Inl UnidentifiedImageError \<and>
   files (snd (cli_main sample_world ''zero.png'' 4 None)) = files sample_world"
proof -
  have bits: "(1::int) \<le> 4" "(4::int) \<le> 8"
    and pic: "files sample_world (Path ''zero.png'') = Some (Picture empty_src)"
    and size: "src_width empty_src = 0 \<or> src_height empty_src = 0"
    by (simp_all add: sample_engine_paths(5) sample_world_def empty_src_def)
  from zero_size_image_rejected [OF bits pic size, of None "\<lparr>anchor = '''', parts = [''zero.py'']\<rparr>"]
    sample_engine_paths(3,6)
  have "convert_image_to_bitmap sample_world ''zero.png'' 4 None =
      (Inl UnidentifiedImageError,
       sample_world\<lparr>log := log sample_world @ [OpenImage (Path ''zero.png'')]\<rparr>)"
    and "cli_main sample_world ''zero.png'' 4 None =
      (Inl UnidentifiedImageError,
       sample_world\<lparr>log := log sample_world @ [OpenImage (Path ''zero.png'')]\<rparr>)"
    by blast+
  then show ?thesis
    by (simp add: sample_engine_paths(5) sample_world_def)
qed

lemma sample_suffixes:
  "name (Path ''a.png'') \<noteq> ''''"
  "name (Path ''out.txt'') \<noteq> ''''"
  "lower (suffix (Path ''out.txt'')) \<noteq> ''.py''"
  "lower (suffix (Path ''out.PY'')) = ''.py''"
  "replace_extension \<lparr>anchor = '''', parts = [''a.png'']\<rparr> = \<lparr>anchor = '''', parts = [''a.py'']\<rparr>"
  "replace_extension \<lparr>anchor = '''', parts = [''out.txt'']\<rparr> = \<lparr>anchor = '''', parts = [''out.py'']\<rparr>"
  "Path ''out.PY'' = \<lparr>anchor = '''', parts = [''out.PY'']\<rparr>"
  "Path ''out.txt'' = \<lparr>anchor = '''', parts = [''out.txt'']\<rparr>"
  by code_simp+

theorem output_path_selection_witness:
  "engine_out_path (Path ''a.png'') None = Inr \<lparr>anchor = '''', parts = [''a.py'']\<rparr> \<and>
   initial_out_path (Path ''a.png'') None = Inr \<lparr>anchor = '''', parts = [''a.py'']\<rparr> \<and>
   engine_out_path (Path ''a.png'') (Some ''out.txt'') = Inr \<lparr>anchor = '''', parts = [''out.py'']\<rparr> \<and>
   engine_out_path (Path ''a.png'') (Some ''out.PY'') = Inr \<lparr>anchor = '''', parts = [''out.PY'']\<rparr> \<and>
   suffix \<lparr>anchor = '''', parts = [''a.py'']\<rparr> = ''.py'' \<and>
   is_file (snd (convert_image_to_bitmap sample_world ''a.png'' 1 (Some ''out.txt'')))
     \<lparr>anchor = '''', parts = [''out.py'']\<rparr> \<and>
   fst (cli_main sample_world ''a.png'' 1 None) = Inr \<lparr>anchor = '''', parts = [''a.py'']\<rparr> \<and>
   fst (cli_main sample_world ''a.png'' 1 (Some ''out.txt''))
     = Inr \<lparr>anchor = '''', parts = [''out.txt'']\<rparr>"
proof -
  let ?out = "\<lparr>anchor = '''', parts = [''out.py'']\<rparr>"
  let ?txt = "\<lparr>anchor = '''', parts = [''out.txt'']\<rparr>"
  let ?flat = "\<lparr>anchor = '''', parts = [''a.py'']\<rparr>"
  have bits: "(1::int) \<le> 1" "(1::int) \<le> 8"
    by simp_all
  have given: "''out.txt'' \<noteq> ''''" "''out.PY'' \<noteq> ''''"
    by simp_all
  obtain m where m: "build (quantize sample_src (nat 1)) (nat 1) = Inr m"
    using sample_build by blast
  have free: "\<forall>d \<in> set (parent ?out # lineage (parent ?out)). \<not> is_file sample_world d"
    and notdir: "\<not> is_dir sample_world ?out"
    by (simp_all add: sample_lineages is_file_def is_dir_def sample_world_def)
  from convert_succeeds
    [OF bits sample_picture sample_size sample_palette sample_engine_paths(4) free notdir]
  obtain w1 where conv:
    "convert_image_to_bitmap sample_world ''a.png'' 1 (Some ''out.txt'') = (Inr ?out, w1)"
    by blast
  obtain w2 where run_default: "cli_main sample_world ''a.png'' 1 None = (Inr ?flat, w2)"
    using cli_ok [OF bits sample_picture sample_size sample_paths(5) m]
    by (simp add: sample_lineages is_file_def is_dir_def sample_world_def)
  obtain w3 where run_given: "cli_main sample_world ''a.png'' 1 (Some ''out.txt'') = (Inr ?txt, w3)"
    using cli_ok [OF bits sample_picture sample_size sample_paths(1) m]
    by (simp add: sample_lineages is_file_def is_dir_def sample_world_def)
  from output_path_selection
    [of "''a.png''" "Some ''out.txt''" "''out.txt''" "Path ''a.png''" sample_world 1 ?out w1] conv
  have written: "\<exists>t. files w1 ?out = Some (Text t)"
    and supplied: "engine_out_path (Path ''a.png'') (Some ''out.txt'') = Inr (replace_extension (Path ''out.txt''))"
    and suffix: "suffix (replace_extension (Path ''a.png'')) = ''.py''"
    using sample_suffixes(1-3) given by blast+
  from output_path_selection
    [of "''a.png''" None "''out.PY''" "Path ''a.png''" sample_world 1 ?flat w2] run_default
  have default: "engine_out_path (Path ''a.png'') None = Inr (replace_extension (Path ''a.png''))"
    and cli_default: "initial_out_path (Path ''a.png'') None = Inr (replace_extension (Path ''a.png''))"
    and kept: "engine_out_path (Path ''a.png'') (Some ''out.PY'') = Inr (Path ''out.PY'')"
    and cli_path: "?flat = replace_extension (Path ''a.png'')"
    using sample_suffixes(1,4) given by blast+
  from output_path_selection
    [of "''a.png''" "Some ''out.txt''" "''out.txt''" "Path ''a.png''" sample_world 1 ?txt w3] run_given
  have cli_given: "?txt = Path ''out.txt''"
    using given by blast
  from written conv have "is_file (snd (convert_image_to_bitmap sample_world ''a.png'' 1 (Some ''out.txt''))) ?out"
    by (auto simp add: is_file_def)
  with supplied suffix default cli_default kept run_default run_given show ?thesis
    by (simp add: sample_suffixes(5-8) path_a_png)
qed

end
